theory Spec2Isabelle
  imports Complex_Main
begin

section \<open>IEEE 754 rounding\<close>

text \<open>
  JavaScript numbers are IEEE 754 double-precision values, and a slot of a
  \<open>Float32Array\<close> holds a single-precision value. Both formats are modelled over the
  reals: a finite value of a format with \<open>p\<close> significant bits and least exponent
  \<open>-d\<close> is an integer of fewer than \<open>p\<close> bits times a power of two not below
  \<open>2\<^sup>-\<^sup>d\<close>, and a real is rounded to the nearest such value, a tie going to the
  neighbour with the even significand. The sign of zero is not modelled.
\<close>

text \<open>Round to the nearest integer, a tie to the even one.\<close>

definition round_even :: "real \<Rightarrow> int" where
  "round_even t =
     (let n = \<lfloor>t\<rfloor>; f = t - of_int n
      in if f < 1 / 2 then n else if 1 / 2 < f then n + 1 else if even n then n else n + 1)"

text \<open>The binade of a non-zero real: the \<open>E\<close> with \<open>2\<^sup>E \<le> |x| < 2\<^sup>E\<^sup>+\<^sup>1\<close>.\<close>

definition binade :: "real \<Rightarrow> int" where
  "binade x = \<lfloor>log 2 \<bar>x\<bar>\<rfloor>"

text \<open>
  Rounding to \<open>p\<close> significant bits with least exponent \<open>-d\<close>, the exponent unbounded
  above: the spacing of the format's values around \<open>x\<close> is \<open>2\<^sup>q\<close>, and \<open>x\<close> is rounded
  to a multiple of it.
\<close>

definition round_to :: "nat \<Rightarrow> nat \<Rightarrow> real \<Rightarrow> real" where
  "round_to p d x =
     (if x = 0 then 0
      else let q = max (binade x - (int p - 1)) (- int d)
           in of_int (round_even (x / 2 powi q)) * 2 powi q)"

definition representable :: "nat \<Rightarrow> nat \<Rightarrow> real \<Rightarrow> bool" where
  "representable p d r = (\<exists>n e. r = of_int n * 2 powi e \<and> \<bar>n\<bar> < 2 ^ p \<and> - int d \<le> e)"

text \<open>The finite values of binary64 and of binary32.\<close>

definition is_double :: "real \<Rightarrow> bool" where
  "is_double r = (representable 53 1074 r \<and> \<bar>r\<bar> < 2 ^ 1024)"

definition is_single :: "real \<Rightarrow> bool" where
  "is_single r = (representable 24 149 r \<and> \<bar>r\<bar> < 2 ^ 128)"

typedef double = "{r. is_double r}"
  morphisms val Abs_double
proof
  show "0 \<in> {r. is_double r}"
    unfolding is_double_def representable_def
    by (simp, intro exI [of _ 0]) simp
qed

section \<open>JavaScript numbers and values\<close>

text \<open>
  A JavaScript number is a finite double, one of the two infinities, or NaN. The
  special values follow IEEE 754 as JavaScript exposes it (an operation on NaN is NaN,
  \<open>Infinity - Infinity\<close> is NaN, every comparison with NaN is false).
\<close>

datatype jsnum = NaN | NegInf | Fin double | PosInf

text \<open>A rounded magnitude beyond the format's range becomes the infinity of its sign.\<close>

definition overflow :: "real \<Rightarrow> jsnum" where
  "overflow r = (if r < 0 then NegInf else PosInf)"

text \<open>
  The number an exact real result is delivered as: the nearest double. A numeric
  literal of the source denotes the double nearest to its decimal value, so \<open>lit\<close> is
  the same function.
\<close>

definition to_double :: "real \<Rightarrow> jsnum" where
  "to_double x =
     (let r = round_to 53 1074 x
      in if 2 ^ 1024 \<le> \<bar>r\<bar> then overflow r else Fin (Abs_double r))"

abbreviation (input) lit :: "real \<Rightarrow> jsnum" where
  "lit x \<equiv> to_double x"

text \<open>
  \<open>Math.fround\<close>, which is also what a store into a \<open>Float32Array\<close> slot does to the
  number stored: the nearest single-precision value, read back as a double.
\<close>

fun fround :: "jsnum \<Rightarrow> jsnum" where
  "fround (Fin a) =
     (let r = round_to 24 149 (val a)
      in if 2 ^ 128 \<le> \<bar>r\<bar> then overflow r else Fin (Abs_double r))"
| "fround a = a"

fun js_neg :: "jsnum \<Rightarrow> jsnum" where
  "js_neg NaN = NaN"
| "js_neg NegInf = PosInf"
| "js_neg PosInf = NegInf"
| "js_neg (Fin a) = to_double (- val a)"

text \<open>The operator \<open>+\<close> on numbers.\<close>

fun js_add :: "jsnum \<Rightarrow> jsnum \<Rightarrow> jsnum" where
  "js_add NaN b = NaN"
| "js_add a NaN = NaN"
| "js_add (Fin a) (Fin b) = to_double (val a + val b)"
| "js_add (Fin a) b = b"
| "js_add a (Fin b) = a"
| "js_add PosInf PosInf = PosInf"
| "js_add NegInf NegInf = NegInf"
| "js_add PosInf NegInf = NaN"
| "js_add NegInf PosInf = NaN"

text \<open>The operator \<open>-\<close>: IEEE subtraction is addition of the negated operand.\<close>

definition js_sub :: "jsnum \<Rightarrow> jsnum \<Rightarrow> jsnum" where
  "js_sub a b = js_add a (js_neg b)"

text \<open>The sign of a number that is not NaN, for the product with an infinity.\<close>

fun js_sign :: "jsnum \<Rightarrow> int" where
  "js_sign NaN = 0"
| "js_sign NegInf = - 1"
| "js_sign PosInf = 1"
| "js_sign (Fin a) = (if val a < 0 then - 1 else if val a = 0 then 0 else 1)"

text \<open>The operator \<open>*\<close>: an infinity times zero is NaN.\<close>

fun js_mul :: "jsnum \<Rightarrow> jsnum \<Rightarrow> jsnum" where
  "js_mul NaN b = NaN"
| "js_mul a NaN = NaN"
| "js_mul (Fin a) (Fin b) = to_double (val a * val b)"
| "js_mul a b =
     (let s = js_sign a * js_sign b
      in if s = 0 then NaN else if s < 0 then NegInf else PosInf)"

text \<open>The comparisons \<open><\<close> and \<open><=\<close>: false as soon as an operand is NaN.\<close>

fun js_lt :: "jsnum \<Rightarrow> jsnum \<Rightarrow> bool" where
  "js_lt NaN b = False"
| "js_lt a NaN = False"
| "js_lt (Fin a) (Fin b) = (val a < val b)"
| "js_lt a NegInf = False"
| "js_lt PosInf b = False"
| "js_lt NegInf b = True"
| "js_lt a PosInf = True"

fun js_le :: "jsnum \<Rightarrow> jsnum \<Rightarrow> bool" where
  "js_le NaN b = False"
| "js_le a NaN = False"
| "js_le a b = (\<not> js_lt b a)"

text \<open>\<open>Math.max\<close> and \<open>Math.min\<close> of two arguments: NaN if either argument is NaN.\<close>

fun Math_max :: "jsnum \<Rightarrow> jsnum \<Rightarrow> jsnum" where
  "Math_max NaN b = NaN"
| "Math_max a NaN = NaN"
| "Math_max a b = (if js_lt a b then b else a)"

fun Math_min :: "jsnum \<Rightarrow> jsnum \<Rightarrow> jsnum" where
  "Math_min NaN b = NaN"
| "Math_min a NaN = NaN"
| "Math_min a b = (if js_lt b a then b else a)"

text \<open>
  \<open>Math.round\<close>: the nearest integer, a tie going towards plus infinity. The integer is a
  double (lemma \<open>Math_round_exact\<close>).
\<close>

fun Math_round :: "jsnum \<Rightarrow> jsnum" where
  "Math_round (Fin a) = to_double (of_int \<lfloor>val a + 1 / 2\<rfloor>)"
| "Math_round a = a"

text \<open>A number in a condition: \<open>0\<close> and NaN are falsy.\<close>

fun num_truthy :: "jsnum \<Rightarrow> bool" where
  "num_truthy NaN = False"
| "num_truthy (Fin a) = (val a \<noteq> 0)"
| "num_truthy a = True"

text \<open>
  What a slot of a \<open>Float32Array\<close> holds: a number that single-precision rounding
  leaves as it is. \<open>to_f32\<close> is the store into a slot, \<open>of_f32\<close> the read.
\<close>

typedef f32 = "{x. fround x = x}"
  morphisms of_f32 Abs_f32
  by (rule exI [of _ NaN]) simp

definition to_f32 :: "jsnum \<Rightarrow> f32" where
  "to_f32 v = Abs_f32 (fround v)"

text \<open>Every array object is truthy, the empty array included.\<close>

definition array_truthy :: "'a list \<Rightarrow> bool" where
  "array_truthy xs = True"

text \<open>
  The values an open attribute bag (\<open>Record<string, unknown>\<close>) can hold, and their
  truthiness. An object is an opaque reference.
\<close>

datatype jsval =
    JUndefined
  | JNull
  | JBool bool
  | JNum jsnum
  | JStr string
  | JObject nat

fun truthy :: "jsval \<Rightarrow> bool" where
  "truthy JUndefined = False"
| "truthy JNull = False"
| "truthy (JBool b) = b"
| "truthy (JNum n) = num_truthy n"
| "truthy (JStr s) = (s \<noteq> [])"
| "truthy (JObject r) = True"

type_synonym jsflags = "string \<rightharpoonup> jsval"

text \<open>Reading a property: an absent key reads as \<open>undefined\<close>.\<close>

definition get_prop :: "jsflags \<Rightarrow> string \<Rightarrow> jsval" where
  "get_prop m k = (case m k of None \<Rightarrow> JUndefined | Some v \<Rightarrow> v)"

section \<open>Nodes, the graph and the group\<close>

text \<open>
  \<open>LGraphNode\<close> and \<open>LGraph\<close> are declared outside \<open>LGraphGroup.ts\<close>; the records hold
  the fields the group reads or writes. Nodes are shared mutable objects: the group's
  member list and the graph's node list hold references into one heap of nodes.
\<close>

type_synonym ref = nat

record LGraphNode =
  node_pos :: "jsnum \<times> jsnum"
  node_size :: "jsnum \<times> jsnum"
  node_type :: string
  node_flags :: "jsflags option"
  node_collapsed_width :: "jsnum option"

type_synonym heap = "ref \<Rightarrow> LGraphNode"

record LGraph =
  graph_nodes :: "ref list"

text \<open>
  The four slots of a \<open>Float32Array\<close> of length four, such as \<open>_bounding\<close>. \<open>_pos\<close> and
  \<open>_size\<close> are the subarrays over slots 0-1 and 2-3 of the same buffer, so a write
  through either is a write to these slots. The fields \<open>bounding\<close> and \<open>nodes\<close> of the
  group are the source's \<open>_bounding\<close> and \<open>_nodes\<close>, and \<open>ctor\<close> is its \<open>_ctor\<close>.
\<close>

record bounding4 =
  b0 :: f32
  b1 :: f32
  b2 :: f32
  b3 :: f32

record LGraphGroup =
  color :: string
  title :: string
  font :: "string option"
  font_size :: jsnum
  bounding :: bounding4
  nodes :: "ref list"
  graph :: "LGraph option"
  flags :: jsflags
  selected :: "bool option"

text \<open>The state the operations run in: the group and the heap of node objects.\<close>

record world =
  group :: LGraphGroup
  heap :: heap

text \<open>
  The constructor. \<open>LiteGraph.DEFAULT_GROUP_FONT\<close> and the palette entry
  \<open>LGraphCanvas.node_colors.pale_blue\<close> (here its \<open>groupcolor\<close>, if the entry exists)
  are declared elsewhere and are parameters.
\<close>

definition ctor :: "jsnum option \<Rightarrow> string option \<Rightarrow> string option \<Rightarrow> LGraphGroup" where
  "ctor DEFAULT_GROUP_FONT pale_blue t =
     \<lparr> color = (case pale_blue of Some c \<Rightarrow> c | None \<Rightarrow> ''#AAA''),
       title = (case t of Some s \<Rightarrow> (if s \<noteq> [] then s else ''Group'') | None \<Rightarrow> ''Group''),
       font = None,
       font_size =
         (case DEFAULT_GROUP_FONT of
            Some n \<Rightarrow> (if num_truthy n then n else lit 24)
          | None \<Rightarrow> lit 24),
       bounding = \<lparr> b0 = to_f32 (lit 10), b1 = to_f32 (lit 10),
                    b2 = to_f32 (lit 140), b3 = to_f32 (lit 80) \<rparr>,
       nodes = [],
       graph = None,
       flags = Map.empty,
       selected = None \<rparr>"

subsection \<open>Accessors\<close>

definition get_pos :: "LGraphGroup \<Rightarrow> jsnum \<times> jsnum" where
  "get_pos g = (of_f32 (b0 (bounding g)), of_f32 (b1 (bounding g)))"

text \<open>
  The setters take what the caller assigns: \<open>None\<close> is a missing (null or undefined)
  value, \<open>Some v\<close> an array.
\<close>

definition set_pos :: "jsnum list option \<Rightarrow> LGraphGroup \<Rightarrow> LGraphGroup" where
  "set_pos v g =
     (case v of
        None \<Rightarrow> g
      | Some a \<Rightarrow>
          if length a < 2 then g
          else g\<lparr>bounding := (bounding g)\<lparr>b0 := to_f32 (a ! 0), b1 := to_f32 (a ! 1)\<rparr>\<rparr>)"

definition get_size :: "LGraphGroup \<Rightarrow> jsnum \<times> jsnum" where
  "get_size g = (of_f32 (b2 (bounding g)), of_f32 (b3 (bounding g)))"

definition set_size :: "jsnum list option \<Rightarrow> LGraphGroup \<Rightarrow> LGraphGroup" where
  "set_size v g =
     (case v of
        None \<Rightarrow> g
      | Some a \<Rightarrow>
          if length a < 2 then g
          else g\<lparr>bounding := (bounding g)\<lparr>b2 := to_f32 (Math_max (lit 140) (a ! 0)),
                                          b3 := to_f32 (Math_max (lit 80) (a ! 1))\<rparr>\<rparr>)"

text \<open>\<open>titleHeight\<close>: the double product of the font size and the literal \<open>1.4\<close>.\<close>

definition titleHeight :: "LGraphGroup \<Rightarrow> jsnum" where
  "titleHeight g = js_mul (font_size g) (lit (7 / 5))"

definition pinned :: "LGraphGroup \<Rightarrow> bool" where
  "pinned g = truthy (get_prop (flags g) ''pinned'')"

definition pin :: "LGraphGroup \<Rightarrow> LGraphGroup" where
  "pin g = g\<lparr>flags := (flags g)(''pinned'' \<mapsto> JBool True)\<rparr>"

definition unpin :: "LGraphGroup \<Rightarrow> LGraphGroup" where
  "unpin g = g\<lparr>flags := (flags g)(''pinned'' := None)\<rparr>"

section \<open>Serialisation\<close>

datatype js_error = TypeError | RangeError







section \<open>Pin-gated mutation\<close>

definition resize :: "jsnum \<Rightarrow> jsnum \<Rightarrow> world \<Rightarrow> world" where
  "resize width height w =
     (if pinned (group w) then w
      else w\<lparr>group := (group w)\<lparr>bounding := (bounding (group w))\<lparr>b2 := to_f32 width,
                                                                 b3 := to_f32 height\<rparr>\<rparr>\<rparr>)"

text \<open>
  The loop of \<open>move\<close> over the member list: each entry is dereferenced and the delta is
  added to the position of the node object it refers to. The type of a node's \<open>pos\<close>
  array is declared elsewhere; \<open>keep\<close> is what a slot of it keeps of a number stored
  (the number itself for a plain array, \<open>fround\<close> of it for a \<open>Float32Array\<close>): a
  parameter.
\<close>

fun move_nodes :: "(jsnum \<Rightarrow> jsnum) \<Rightarrow> jsnum \<Rightarrow> jsnum \<Rightarrow> ref list \<Rightarrow> heap \<Rightarrow> heap" where
  "move_nodes keep deltax deltay [] h = h"
| "move_nodes keep deltax deltay (r # rs) h =
     move_nodes keep deltax deltay rs
       (h(r := (h r)\<lparr>node_pos := (keep (js_add (fst (node_pos (h r))) deltax),
                                   keep (js_add (snd (node_pos (h r))) deltay))\<rparr>))"

text \<open>\<open>move\<close>; an omitted \<open>ignore_nodes\<close> (\<open>None\<close>) defaults to \<open>false\<close>.\<close>

definition move :: "(jsnum \<Rightarrow> jsnum) \<Rightarrow> jsnum \<Rightarrow> jsnum \<Rightarrow> bool option \<Rightarrow> world \<Rightarrow> world" where
  "move keep deltax deltay ignore_nodes w =
     (if pinned (group w) then w
      else
        let g = group w;
            g' = g\<lparr>bounding := (bounding g)
                    \<lparr>b0 := to_f32 (js_add (of_f32 (b0 (bounding g))) deltax),
                     b1 := to_f32 (js_add (of_f32 (b1 (bounding g))) deltay)\<rparr>\<rparr>
        in if (case ignore_nodes of None \<Rightarrow> False | Some b \<Rightarrow> b) then w\<lparr>group := g'\<rparr>
           else w\<lparr>group := g', heap := move_nodes keep deltax deltay (nodes g') (heap w)\<rparr>)"

text \<open>Sequences of \<open>move\<close> and \<open>resize\<close> calls.\<close>

datatype call = Move jsnum jsnum "bool option" | Resize jsnum jsnum

fun do_call :: "(jsnum \<Rightarrow> jsnum) \<Rightarrow> call \<Rightarrow> world \<Rightarrow> world" where
  "do_call keep (Move deltax deltay ignore_nodes) w = move keep deltax deltay ignore_nodes w"
| "do_call keep (Resize width height) w = resize width height w"

fun do_calls :: "(jsnum \<Rightarrow> jsnum) \<Rightarrow> call list \<Rightarrow> world \<Rightarrow> world" where
  "do_calls keep [] w = w"
| "do_calls keep (c # cs) w = do_calls keep cs (do_call keep c w)"

section \<open>Membership recomputation\<close>

text \<open>
  Modelled from the spec: \<open>overlapBounding\<close> is imported from \<open>./measure\<close>, which is not
  among the sources. The spec says of it: two boxes \<open>[x, y, width, height]\<close> overlap iff
  their intersection has positive area, and a box of zero width or height never
  overlaps. The intersection of two boxes reaches from the larger of the two left
  edges to the smaller of the two right edges, and likewise from top to bottom; it has
  positive area when both extents are positive. Both boxes are \<open>Float32Array\<close>s.
\<close>

definition intersection_width :: "bounding4 \<Rightarrow> bounding4 \<Rightarrow> jsnum" where
  "intersection_width a b =
     js_sub (Math_min (js_add (of_f32 (b0 a)) (of_f32 (b2 a))) (js_add (of_f32 (b0 b)) (of_f32 (b2 b))))
            (Math_max (of_f32 (b0 a)) (of_f32 (b0 b)))"

definition intersection_height :: "bounding4 \<Rightarrow> bounding4 \<Rightarrow> jsnum" where
  "intersection_height a b =
     js_sub (Math_min (js_add (of_f32 (b1 a)) (of_f32 (b3 a))) (js_add (of_f32 (b1 b)) (of_f32 (b3 b))))
            (Math_max (of_f32 (b1 a)) (of_f32 (b1 b)))"

definition overlapBounding :: "bounding4 \<Rightarrow> bounding4 \<Rightarrow> bool" where
  "overlapBounding a b =
     (js_lt (lit 0) (intersection_width a b) \<and> js_lt (lit 0) (intersection_height a b))"

text \<open>
  The loop of \<open>recomputeInsideNodes\<close>: \<open>acc\<close> is \<open>this._nodes\<close> as pushed so far.
  \<open>getBounding\<close> is \<open>LGraphNode.getBounding\<close>, declared elsewhere: a parameter, the
  contents it leaves in the scratch \<open>Float32Array(4)\<close> as a function of the node.
\<close>

fun inside_loop ::
  "(LGraphNode \<Rightarrow> bounding4) \<Rightarrow> bounding4 \<Rightarrow> heap \<Rightarrow> ref list \<Rightarrow> ref list \<Rightarrow> ref list" where
  "inside_loop getBounding b h [] acc = acc"
| "inside_loop getBounding b h (r # rs) acc =
     (if \<not> overlapBounding b (getBounding (h r))
      then inside_loop getBounding b h rs acc
      else inside_loop getBounding b h rs (acc @ [r]))"

text \<open>
  \<open>recomputeInsideNodes\<close>. The member array is emptied first; reading \<open>_nodes\<close> of a
  null graph then raises a TypeError, and the left injection carries the state the
  throw leaves.
\<close>

definition recomputeInsideNodes ::
  "(LGraphNode \<Rightarrow> bounding4) \<Rightarrow> world \<Rightarrow> js_error \<times> world + world" where
  "recomputeInsideNodes getBounding w =
     (let g = (group w)\<lparr>nodes := []\<rparr>
      in case graph g of
           None \<Rightarrow> Inl (TypeError, w\<lparr>group := g\<rparr>)
         | Some gr \<Rightarrow>
             Inr (w\<lparr>group :=
                    g\<lparr>nodes := inside_loop getBounding (bounding g) (heap w) (graph_nodes gr) (nodes g)\<rparr>\<rparr>))"

section \<open>Fitting the group around nodes\<close>

record bounds =
  bleft :: jsnum
  btop :: jsnum
  bright :: jsnum
  bbottom :: jsnum

definition isCollapsed :: "LGraphNode \<Rightarrow> bool" where
  "isCollapsed n =
     truthy (case node_flags n of None \<Rightarrow> JUndefined | Some f \<Rightarrow> get_prop f ''collapsed'')"

text \<open>
  The callback of the \<open>reduce\<close> in \<open>addNodes\<close>. \<open>NODE_TITLE_HEIGHT\<close> is
  \<open>LiteGraph.NODE_TITLE_HEIGHT\<close>, declared elsewhere: a parameter.
\<close>

definition fit_step :: "jsnum \<Rightarrow> bounds \<Rightarrow> LGraphNode \<Rightarrow> bounds" where
  "fit_step NODE_TITLE_HEIGHT acc n =
     (let x = fst (node_pos n); y = snd (node_pos n);
          width = fst (node_size n); height = snd (node_size n);
          isReroute = (node_type n = ''Reroute'');
          top = js_sub y (if isReroute then lit 0 else NODE_TITLE_HEIGHT);
          bottom = (if isCollapsed n then js_add top NODE_TITLE_HEIGHT else js_add y height);
          right =
            (case node_collapsed_width n of
               Some cw \<Rightarrow>
                 (if isCollapsed n \<and> num_truthy cw then js_add x (Math_round cw)
                  else js_add x width)
             | None \<Rightarrow> js_add x width)
      in \<lparr> bleft = Math_min (bleft acc) x,
           btop = Math_min (btop acc) top,
           bright = Math_max (bright acc) right,
           bbottom = Math_max (bbottom acc) bottom \<rparr>)"

text \<open>
  \<open>addNodes\<close> (the spec's \<open>fitAround\<close>); an omitted \<open>padding\<close> (\<open>None\<close>) defaults to 10.
  The node arguments are references, dereferenced in the heap.
\<close>

definition addNodes :: "jsnum \<Rightarrow> ref list \<Rightarrow> jsnum option \<Rightarrow> world \<Rightarrow> world" where
  "addNodes NODE_TITLE_HEIGHT ns padding' w =
     (let padding = (case padding' of None \<Rightarrow> lit 10 | Some p \<Rightarrow> p);
          g = group w
      in if \<not> array_truthy (nodes g) \<and> length ns = 0 then w
         else
           let allNodes = (if array_truthy (nodes g) then nodes g else []) @ ns;
               bounds =
                 foldl (fit_step NODE_TITLE_HEIGHT)
                   \<lparr> bleft = PosInf, btop = PosInf, bright = NegInf, bbottom = NegInf \<rparr>
                   (map (heap w) allNodes);
               g1 = set_pos (Some [js_sub (bleft bounds) padding,
                                   js_sub (js_sub (btop bounds) padding) (titleHeight g)]) g;
               g2 = set_size (Some [js_add (js_sub (bright bounds) (bleft bounds)) (js_mul padding (lit 2)),
                                    js_add (js_add (js_sub (bbottom bounds) (btop bounds))
                                                   (js_mul padding (lit 2)))
                                           (titleHeight g1)]) g1
           in w\<lparr>group := g2\<rparr>)"

section \<open>Hit test of the title bar\<close>

text \<open>
  Modelled from the spec: \<open>isInsideRectangle\<close> is imported from \<open>./measure\<close>, which is
  not among the sources. The spec says of it: an inclusive axis-aligned rectangle test
  of the point \<open>(x, y)\<close> against \<open>[left, top, width, height]\<close>, boundary points counting
  as inside.
\<close>

definition isInsideRectangle :: "jsnum \<Rightarrow> jsnum \<Rightarrow> jsnum \<Rightarrow> jsnum \<Rightarrow> jsnum \<Rightarrow> jsnum \<Rightarrow> bool" where
  "isInsideRectangle x y left top' width height =
     (js_le left x \<and> js_le x (js_add left width) \<and> js_le top' y \<and> js_le y (js_add top' height))"

definition isPointInTitlebar :: "LGraphGroup \<Rightarrow> jsnum \<Rightarrow> jsnum \<Rightarrow> bool" where
  "isPointInTitlebar g x y =
     (let b = bounding g
      in isInsideRectangle x y (of_f32 (b0 b)) (of_f32 (b1 b)) (of_f32 (b2 b)) (titleHeight g))"

section \<open>The fit as the specification words it\<close>

text \<open>
  The edges of a node and the union box, as the specification words them, for
  comparison with what \<open>addNodes\<close> computes.
\<close>

definition spec_left :: "LGraphNode \<Rightarrow> jsnum" where
  "spec_left n = fst (node_pos n)"

definition spec_top :: "jsnum \<Rightarrow> LGraphNode \<Rightarrow> jsnum" where
  "spec_top H n =
     (if node_type n = ''Reroute'' then snd (node_pos n) else js_sub (snd (node_pos n)) H)"

definition spec_bottom :: "jsnum \<Rightarrow> LGraphNode \<Rightarrow> jsnum" where
  "spec_bottom H n =
     (if isCollapsed n then js_add (spec_top H n) H
      else js_add (snd (node_pos n)) (snd (node_size n)))"

text \<open>A collapsed-width hint is a number that is present and truthy (not 0, not NaN).\<close>

definition collapsed_width_hint :: "LGraphNode \<Rightarrow> jsnum option" where
  "collapsed_width_hint n =
     (case node_collapsed_width n of
        Some cw \<Rightarrow> (if num_truthy cw then Some cw else None)
      | None \<Rightarrow> None)"

definition spec_right :: "LGraphNode \<Rightarrow> jsnum" where
  "spec_right n =
     (case collapsed_width_hint n of
        Some cw \<Rightarrow>
          (if isCollapsed n then js_add (fst (node_pos n)) (Math_round cw)
           else js_add (fst (node_pos n)) (fst (node_size n)))
      | None \<Rightarrow> js_add (fst (node_pos n)) (fst (node_size n)))"

text \<open>The running minimum and maximum of a non-empty sequence, from its first element.\<close>

definition running_min :: "jsnum \<Rightarrow> jsnum list \<Rightarrow> jsnum" where
  "running_min x xs = foldl Math_min x xs"

definition running_max :: "jsnum \<Rightarrow> jsnum list \<Rightarrow> jsnum" where
  "running_max x xs = foldl Math_max x xs"

definition spec_union :: "jsnum \<Rightarrow> LGraphNode \<Rightarrow> LGraphNode list \<Rightarrow> bounds" where
  "spec_union H n ms =
     \<lparr> bleft = running_min (spec_left n) (map spec_left ms),
       btop = running_min (spec_top H n) (map (spec_top H) ms),
       bright = running_max (spec_right n) (map spec_right ms),
       bbottom = running_max (spec_bottom H n) (map (spec_bottom H) ms) \<rparr>"

text \<open>
  The position and the size the specification states for the fitted group, from the
  union box \<open>u\<close>, the padding \<open>p\<close> and the title-bar height \<open>th\<close> of the group, the size
  clamped to the minimum, all in double arithmetic.
\<close>

definition spec_fit_pos :: "bounds \<Rightarrow> jsnum \<Rightarrow> jsnum \<Rightarrow> jsnum \<times> jsnum" where
  "spec_fit_pos u p th = (js_sub (bleft u) p, js_sub (js_sub (btop u) p) th)"

definition spec_fit_size :: "bounds \<Rightarrow> jsnum \<Rightarrow> jsnum \<Rightarrow> jsnum \<times> jsnum" where
  "spec_fit_size u p th =
     (Math_max (lit 140) (js_add (js_sub (bright u) (bleft u)) (js_mul (lit 2) p)),
      Math_max (lit 80) (js_add (js_add (js_sub (bbottom u) (btop u)) (js_mul (lit 2) p)) th))"

text \<open>Narrowing a pair of numbers to single precision, slot by slot.\<close>

definition fround2 :: "jsnum \<times> jsnum \<Rightarrow> jsnum \<times> jsnum" where
  "fround2 v = (fround (fst v), fround (snd v))"

text \<open>
  One addition of a delta to a node's position, as one entry of the member list
  causes it.
\<close>

definition shift_pos :: "(jsnum \<Rightarrow> jsnum) \<Rightarrow> jsnum \<Rightarrow> jsnum \<Rightarrow> jsnum \<times> jsnum \<Rightarrow> jsnum \<times> jsnum" where
  "shift_pos keep deltax deltay v = (keep (js_add (fst v) deltax), keep (js_add (snd v) deltay))"

section \<open>Example states\<close>

text \<open>Concrete nodes, heaps and groups on which the theorems below are instantiated.\<close>

definition node0 :: LGraphNode where
  "node0 = \<lparr> node_pos = (lit 0, lit 0), node_size = (lit 0, lit 0), node_type = [],
             node_flags = None, node_collapsed_width = None \<rparr>"

definition heap0 :: heap where
  "heap0 = (\<lambda>r. node0)"

text \<open>The group as the constructor leaves it: box \<open>[10, 10, 140, 80]\<close>, font size 24.\<close>

definition group0 :: LGraphGroup where
  "group0 = ctor None None None"

text \<open>
  Three nodes: a plain one, a collapsed one with a collapsed-width hint of 60.4, and a
  reroute; they sit at references 1, 2 and 3 of \<open>heap1\<close>.
\<close>

definition node1 :: LGraphNode where
  "node1 = \<lparr> node_pos = (lit 100, lit 100), node_size = (lit 80, lit 40), node_type = ''basic/sum'',
             node_flags = Some Map.empty, node_collapsed_width = None \<rparr>"

definition node2 :: LGraphNode where
  "node2 = \<lparr> node_pos = (lit 300, lit 50), node_size = (lit 200, lit 500), node_type = ''basic/sum'',
             node_flags = Some [''collapsed'' \<mapsto> JBool True],
             node_collapsed_width = Some (lit (302 / 5)) \<rparr>"

definition node3 :: LGraphNode where
  "node3 = \<lparr> node_pos = (lit 0, lit 20), node_size = (lit 10, lit 10), node_type = ''Reroute'',
             node_flags = None, node_collapsed_width = None \<rparr>"

definition heap1 :: heap where
  "heap1 = heap0(1 := node1, 2 := node2, 3 := node3)"

text \<open>The default group with the node at reference 1 as its only member.\<close>

definition group1 :: LGraphGroup where
  "group1 = group0\<lparr>nodes := [1]\<rparr>"

text \<open>The default group with the node at reference 1 listed twice.\<close>

definition group_twice :: LGraphGroup where
  "group_twice = group0\<lparr>nodes := [1, 1]\<rparr>"

text \<open>The default group after \<open>pos = [16777216, 10]\<close>: its abscissa is \<open>2\<^sup>2\<^sup>4\<close>.\<close>

definition group_far :: LGraphGroup where
  "group_far = set_pos (Some [lit 16777216, lit 10]) group0"

text \<open>The default group after \<open>pos = [10, 18014398509481984]\<close>: its ordinate is \<open>2\<^sup>5\<^sup>4\<close>.\<close>

definition group_high :: LGraphGroup where
  "group_high = set_pos (Some [lit 10, lit 18014398509481984]) group0"

text \<open>A plain array keeps the number stored in it.\<close>

definition plain :: "jsnum \<Rightarrow> jsnum" where
  "plain v = v"




section \<open>Properties of the rounding\<close>

text \<open>
  Binades and powers of two, rounding to an integer, and the facts about \<open>round_to\<close>
  that the rest relies on: its result is a value of the format, a value of the format
  is left as it is, and rounding is monotone against a value of the format below the
  argument.
\<close>

lemma powr_powi: "(2::real) powr (of_int k) = 2 powi k"
  by (simp add: powr_real_of_int power_int_def power_one_over inverse_eq_divide)

lemma binade_eq_iff: "x \<noteq> 0 \<Longrightarrow> binade x = E \<longleftrightarrow> 2 powi E \<le> \<bar>x\<bar> \<and> \<bar>x\<bar> < 2 powi (E + 1)"
  unfolding binade_def
  using floor_log_eq_powr_iff [of "\<bar>x\<bar>" 2 E] powr_powi [of E] powr_powi [of "E + 1"]
  by simp

lemma binade_bounds: "x \<noteq> 0 \<Longrightarrow> 2 powi binade x \<le> \<bar>x\<bar> \<and> \<bar>x\<bar> < 2 powi (binade x + 1)"
  using binade_eq_iff [of x "binade x"] by simp

lemma round_even_of_int [simp]: "round_even (of_int n) = n"
  by (simp add: round_even_def)

lemma round_even_cases: "round_even t = \<lfloor>t\<rfloor> \<or> round_even t = \<lfloor>t\<rfloor> + 1"
  by (simp add: round_even_def Let_def)

lemma round_even_nonneg: "0 \<le> t \<Longrightarrow> 0 \<le> round_even t"
  using round_even_cases [of t] by (auto simp: zero_le_floor)


lemma round_even_abs_le: "\<bar>t\<bar> \<le> of_int m \<Longrightarrow> \<bar>round_even t\<bar> \<le> m"
proof -
  assume b: "\<bar>t\<bar> \<le> of_int m"
  define n where "n = \<lfloor>t\<rfloor>"
  have c: "round_even t = n \<or> round_even t = n + 1"
    unfolding n_def by (rule round_even_cases)
  have le: "of_int n \<le> t" unfolding n_def by simp
  from b have "of_int (- m) \<le> t" by simp
  then have lo: "- m \<le> n" unfolding n_def by (simp only: le_floor_iff)
  have up: "round_even t \<le> m"
  proof (cases "t = of_int n")
    case True
    then have "round_even t = n" by (metis round_even_of_int)
    moreover from b have "t \<le> of_int m" by linarith
    with True have "(of_int n :: real) \<le> of_int m" by simp
    then have "n \<le> m" by (simp only: of_int_le_iff)
    ultimately show ?thesis by simp
  next
    case False
    with le have "of_int n < t" by linarith
    with b have "of_int n < (of_int m :: real)" by linarith
    then have "n < m" by simp
    with c show ?thesis by linarith
  qed
  from lo up c show ?thesis by linarith
qed


lemma two_powi_pos [simp]: "0 < (2::real) powi k"
  by simp

lemma two_powi_less_iff: "(2::real) powi a < 2 powi b \<longleftrightarrow> a < b"
proof
  assume "(2::real) powi a < 2 powi b"
  show "a < b"
  proof (rule ccontr)
    assume "\<not> a < b"
    then have "b \<le> a" by simp
    then have "(2::real) powi b \<le> 2 powi a" by (intro power_int_increasing) auto
    with \<open>(2::real) powi a < 2 powi b\<close> show False by simp
  qed
next
  assume "a < b"
  then show "(2::real) powi a < 2 powi b" by (intro power_int_strict_increasing) auto
qed

lemma two_powi_le_iff: "(2::real) powi a \<le> 2 powi b \<longleftrightarrow> a \<le> b"
  using two_powi_less_iff [of b a] by (auto simp: not_less [symmetric])

lemma two_powi_add: "(2::real) powi (a + b) = 2 powi a * 2 powi b"
  by (simp add: power_int_add)

lemma two_powi_diff: "(2::real) powi (a - b) = 2 powi a / 2 powi b"
  by (simp add: power_int_diff)

lemma representable_0 [simp]: "representable p d 0"
  unfolding representable_def by (intro exI [of _ 0] exI [of _ "- int d"]) simp

lemma round_to_representable:
  assumes "0 < p"
  shows "representable p d (round_to p d x)"
proof (cases "x = 0")
  case True
  then show ?thesis by (simp add: round_to_def)
next
  case False
  define q where "q = max (binade x - (int p - 1)) (- int d)"
  define N where "N = round_even (x / 2 powi q)"
  have r: "round_to p d x = of_int N * 2 powi q"
    using False by (simp add: round_to_def Let_def q_def N_def)
  have "binade x + 1 \<le> q + int p" unfolding q_def by simp
  then have "(2::real) powi (binade x + 1) \<le> 2 powi (q + int p)"
    by (simp only: two_powi_le_iff)
  with binade_bounds [OF False] have "\<bar>x\<bar> < 2 powi q * 2 ^ p"
    by (simp add: two_powi_add)
  then have "\<bar>x / 2 powi q\<bar> < 2 ^ p"
    by (simp add: field_simps)
  then have "\<bar>x / 2 powi q\<bar> \<le> of_int (2 ^ p)" by simp
  then have N: "\<bar>N\<bar> \<le> 2 ^ p" unfolding N_def by (rule round_even_abs_le)
  have qd: "- int d \<le> q" unfolding q_def by simp
  show ?thesis
  proof (cases "\<bar>N\<bar> < 2 ^ p")
    case True
    with r qd show ?thesis unfolding representable_def by blast
  next
    case False
    with N have "N = 2 ^ p \<or> N = - (2 ^ p)" by linarith
    then have "round_to p d x = of_int (if N < 0 then - 1 else 1) * 2 powi (q + int p)"
      unfolding r by (auto simp: two_powi_add)
    moreover have "\<bar>if N < 0 then - 1 else 1 :: int\<bar> < 2 ^ p"
      using assms by (auto simp: one_less_power)
    moreover have "- int d \<le> q + int p" using qd by simp
    ultimately show ?thesis unfolding representable_def by blast
  qed
qed

lemma round_to_id:
  assumes "representable p d r"
  shows "round_to p d r = r"
proof (cases "r = 0")
  case True
  then show ?thesis by (simp add: round_to_def)
next
  case False
  from assms obtain n e where r: "r = of_int n * 2 powi e" and n: "\<bar>n\<bar> < 2 ^ p" and e: "- int d \<le> e"
    unfolding representable_def by blast
  define q where "q = max (binade r - (int p - 1)) (- int d)"
  have "\<bar>r\<bar> = \<bar>of_int n\<bar> * 2 powi e" unfolding r by (simp add: abs_mult)
  also from n have "\<dots> < 2 ^ p * 2 powi e"
    by (intro mult_strict_right_mono) (simp_all flip: of_int_abs add: of_int_less_numeral_power_cancel_iff)
  also have "\<dots> = 2 powi (int p + e)" by (simp add: two_powi_add)
  finally have "\<bar>r\<bar> < 2 powi (int p + e)" .
  with binade_bounds [OF False] have "(2::real) powi binade r < 2 powi (int p + e)" by linarith
  then have "binade r < int p + e" by (simp only: two_powi_less_iff)
  with e have qe: "q \<le> e" unfolding q_def by simp
  then obtain k where k: "e = q + int k"
    by (metis zle_iff_zadd)
  have "r / 2 powi q = of_int (n * 2 ^ k)"
    unfolding r k by (simp add: two_powi_add)
  then have "round_even (r / 2 powi q) = n * 2 ^ k" by (simp only: round_even_of_int)
  then have "round_to p d r = of_int (n * 2 ^ k) * 2 powi q"
    using False by (simp add: round_to_def Let_def q_def)
  also have "\<dots> = r" unfolding r k by (simp add: two_powi_add)
  finally show ?thesis .
qed

lemma round_to_nonneg: "0 \<le> x \<Longrightarrow> 0 \<le> round_to p d x"
  by (simp add: round_to_def Let_def round_even_nonneg)


lemma round_to_binade:
  "x \<noteq> 0 \<Longrightarrow> 2 powi E \<le> \<bar>x\<bar> \<Longrightarrow> \<bar>x\<bar> < 2 powi (E + 1) \<Longrightarrow>
     round_to p d x =
       of_int (round_even (x / 2 powi max (E - (int p - 1)) (- int d)))
         * 2 powi max (E - (int p - 1)) (- int d)"
  using binade_eq_iff [of x E] by (simp add: round_to_def Let_def)

lemma representable_mono:
  "p \<le> p' \<Longrightarrow> d \<le> d' \<Longrightarrow> representable p d r \<Longrightarrow> representable p' d' r"
  unfolding representable_def
  by (smt (verit) of_nat_le_iff power_increasing)

lemma representable_of_int:
  assumes "0 < p" and "\<bar>k\<bar> \<le> 2 ^ p"
  shows "representable p d (of_int k)"
proof (cases "\<bar>k\<bar> < 2 ^ p")
  case True
  then show ?thesis unfolding representable_def
    by (intro exI [of _ k] exI [of _ 0]) simp
next
  case False
  with assms have "k = 2 ^ p \<or> k = - (2 ^ p)" by linarith
  then have "(of_int k :: real) = of_int (if k < 0 then - 1 else 1) * 2 powi (int p)"
    by auto
  moreover have "\<bar>if k < 0 then - 1 else 1 :: int\<bar> < 2 ^ p"
    using assms by (auto simp: one_less_power)
  ultimately show ?thesis unfolding representable_def by (metis (no_types) of_nat_0_le_iff neg_le_0_iff_le order_trans)
qed

lemma is_double_val [simp]: "is_double (val a)"
  using val [of a] by simp

lemma val_Abs: "is_double r \<Longrightarrow> val (Abs_double r) = r"
  by (simp add: Abs_double_inverse)

lemma Abs_val [simp]: "Abs_double (val a) = a"
  by (rule val_inverse)

lemma Fin_eq_iff: "Fin a = Fin b \<longleftrightarrow> val a = val b"
  by (simp add: val_inject)

lemma round_to_double_id: "is_double r \<Longrightarrow> round_to 53 1074 r = r"
  by (simp add: is_double_def round_to_id)

lemma to_double_exact: "is_double r \<Longrightarrow> to_double r = Fin (Abs_double r)"
  by (simp add: to_double_def round_to_double_id is_double_def)

lemma to_double_val [simp]: "to_double (val a) = Fin a"
  by (simp add: to_double_exact)

lemma to_double_round: "to_double (round_to 53 1074 x) = to_double x"
  by (simp add: to_double_def round_to_id round_to_representable)

lemma to_double_cases:
  obtains (inf) "2 ^ 1024 \<le> \<bar>round_to 53 1074 x\<bar>" "to_double x = overflow (round_to 53 1074 x)"
  | (fin) a where "to_double x = Fin a" "val a = round_to 53 1074 x"
proof (cases "2 ^ 1024 \<le> \<bar>round_to 53 1074 x\<bar>")
  case True
  then show ?thesis by (intro inf) (simp_all add: to_double_def)
next
  case False
  then have "is_double (round_to 53 1074 x)"
    by (simp add: is_double_def round_to_representable)
  with False show ?thesis by (intro fin [of "Abs_double (round_to 53 1074 x)"]) (simp_all add: to_double_def val_Abs)
qed

lemma to_double_not_NaN [simp]: "to_double x \<noteq> NaN"
  by (simp add: to_double_def overflow_def Let_def)

lemma is_single_double: "is_single r \<Longrightarrow> is_double r"
proof -
  assume s: "is_single r"
  then have "representable 53 1074 r"
    by (auto simp: is_single_def intro: representable_mono [of 24 53 149 1074])
  moreover have "(2::real) ^ 128 \<le> 2 ^ 1024" by (intro power_increasing) auto
  with s have "\<bar>r\<bar> < 2 ^ 1024" by (simp add: is_single_def)
  ultimately show ?thesis by (simp add: is_double_def)
qed

lemmas fround_Fin = fround.simps(1)

declare fround.simps(1) [simp del]

lemma fround_cases:
  obtains (inf) "2 ^ 128 \<le> \<bar>round_to 24 149 (val a)\<bar>" "fround (Fin a) = overflow (round_to 24 149 (val a))"
  | (fin) b where "fround (Fin a) = Fin b" "val b = round_to 24 149 (val a)" "is_single (val b)"
proof (cases "2 ^ 128 \<le> \<bar>round_to 24 149 (val a)\<bar>")
  case True
  then show ?thesis by (intro inf) (simp_all add: fround_Fin)
next
  case False
  then have s: "is_single (round_to 24 149 (val a))"
    by (simp add: is_single_def round_to_representable)
  then have "val (Abs_double (round_to 24 149 (val a))) = round_to 24 149 (val a)"
    by (simp add: val_Abs is_single_double)
  with False s show ?thesis
    by (intro fin [of "Abs_double (round_to 24 149 (val a))"]) (simp_all add: fround_Fin)
qed

lemma fround_single: "is_single (val a) \<Longrightarrow> fround (Fin a) = Fin a"
  by (simp add: fround_Fin is_single_def round_to_id)

lemma fround_overflow [simp]: "fround (overflow r) = overflow r"
  by (simp add: overflow_def)

lemma fround_idem [simp]: "fround (fround x) = fround x"
proof (cases x)
  case (Fin a)
  show ?thesis
  proof (cases a rule: fround_cases)
    case inf
    then show ?thesis unfolding Fin by (simp only: fround_overflow)
  next
    case (fin b)
    from fin(3) have "fround (Fin b) = Fin b" by (rule fround_single)
    with fin(1) show ?thesis unfolding Fin by (simp only:)
  qed
qed simp_all

lemma of_f32_to_f32 [simp]: "of_f32 (to_f32 v) = fround v"
  by (simp add: to_f32_def Abs_f32_inverse)

lemma fround_of_f32 [simp]: "fround (of_f32 s) = of_f32 s"
  using of_f32 [of s] by simp

lemma to_f32_of_f32 [simp]: "to_f32 (of_f32 s) = s"
  by (simp add: to_f32_def of_f32_inverse)

lemma f32_eq_iff: "s = t \<longleftrightarrow> of_f32 s = of_f32 t"
  by (simp add: of_f32_inject)

lemma representableI:
  "r = of_int k * 2 powi e \<Longrightarrow> \<bar>k\<bar> < 2 ^ p \<Longrightarrow> - int d \<le> e \<Longrightarrow> representable p d r"
  unfolding representable_def by blast

lemma is_double_of_int: "\<bar>k\<bar> \<le> 2 ^ 53 \<Longrightarrow> is_double (of_int k)"
proof -
  assume k: "\<bar>k\<bar> \<le> 2 ^ 53"
  then have "\<bar>of_int k :: real\<bar> \<le> 2 ^ 53"
    by (metis of_int_abs of_int_le_numeral_power_cancel_iff)
  moreover have "(2::real) ^ 53 < 2 ^ 1024" by (intro power_strict_increasing) auto
  ultimately show ?thesis
    using k by (simp add: is_double_def representable_of_int)
qed

lemma is_single_of_int: "\<bar>k\<bar> \<le> 2 ^ 24 \<Longrightarrow> is_single (of_int k)"
proof -
  assume k: "\<bar>k\<bar> \<le> 2 ^ 24"
  then have "\<bar>of_int k :: real\<bar> \<le> 2 ^ 24"
    by (metis of_int_abs of_int_le_numeral_power_cancel_iff)
  moreover have "(2::real) ^ 24 < 2 ^ 128" by (intro power_strict_increasing) auto
  ultimately show ?thesis
    using k by (simp add: is_single_def representable_of_int)
qed

lemma is_double_numeral [simp]:
  "is_double 0" "is_double 1"
  "numeral n \<le> (2 ^ 53 :: int) \<Longrightarrow> is_double (numeral n)"
  "numeral n \<le> (2 ^ 53 :: int) \<Longrightarrow> is_double (- numeral n)"
  using is_double_of_int [of 0] is_double_of_int [of 1]
    is_double_of_int [of "numeral n"] is_double_of_int [of "- numeral n"]
  by simp_all

lemma is_single_numeral [simp]:
  "is_single 0" "is_single 1"
  "numeral n \<le> (2 ^ 24 :: int) \<Longrightarrow> is_single (numeral n)"
  "numeral n \<le> (2 ^ 24 :: int) \<Longrightarrow> is_single (- numeral n)"
  using is_single_of_int [of 0] is_single_of_int [of 1]
    is_single_of_int [of "numeral n"] is_single_of_int [of "- numeral n"]
  by simp_all

lemma Abs_double_eq_iff: "is_double a \<Longrightarrow> is_double b \<Longrightarrow> Abs_double a = Abs_double b \<longleftrightarrow> a = b"
  by (simp add: Abs_double_inject)

lemmas num_eval = to_double_exact val_Abs Abs_double_eq_iff

lemma to_double_eval:
  assumes "x \<noteq> 0" and "2 powi E \<le> \<bar>x\<bar>" and "\<bar>x\<bar> < 2 powi (E + 1)"
    and "r = of_int (round_even (x / 2 powi max (E - 52) (- 1074))) * 2 powi max (E - 52) (- 1074)"
    and "\<bar>r\<bar> < 2 ^ 1024"
  shows "to_double x = Fin (Abs_double r)" and "is_double r"
proof -
  have r: "round_to 53 1074 x = r"
    using round_to_binade [OF assms(1-3), of 53 1074] assms(4) by simp
  then show "is_double r"
    using round_to_representable [of 53 1074 x] assms(5) by (simp add: is_double_def)
  then show "to_double x = Fin (Abs_double r)"
    using to_double_round [of x] r by (simp add: to_double_exact)
qed

lemma fround_eval:
  assumes "is_double x" and "x \<noteq> 0" and "2 powi E \<le> \<bar>x\<bar>" and "\<bar>x\<bar> < 2 powi (E + 1)"
    and "r = of_int (round_even (x / 2 powi max (E - 23) (- 149))) * 2 powi max (E - 23) (- 149)"
    and "\<bar>r\<bar> < 2 ^ 128"
  shows "fround (Fin (Abs_double x)) = Fin (Abs_double r)" and "is_single r"
proof -
  have r: "round_to 24 149 x = r"
    using round_to_binade [OF assms(2-4), of 24 149] assms(5) by simp
  then show "is_single r"
    using round_to_representable [of 24 149 x] assms(6) by (simp add: is_single_def)
  show "fround (Fin (Abs_double x)) = Fin (Abs_double r)"
    using r assms(1,6) by (simp add: fround_Fin val_Abs)
qed

lemma fround_exact: "is_single x \<Longrightarrow> fround (Fin (Abs_double x)) = Fin (Abs_double x)"
  by (simp add: fround_single val_Abs is_single_double)

section \<open>Properties of the operators\<close>

lemma representable_minus: "representable p d r \<Longrightarrow> representable p d (- r)"
proof -
  assume "representable p d r"
  then obtain n e where "r = of_int n * 2 powi e" "\<bar>n\<bar> < 2 ^ p" "- int d \<le> e"
    unfolding representable_def by blast
  then have "- r = of_int (- n) * 2 powi e" "\<bar>- n\<bar> < 2 ^ p" by simp_all
  with \<open>- int d \<le> e\<close> show ?thesis unfolding representable_def by blast
qed

lemma is_double_minus [simp]: "is_double r \<Longrightarrow> is_double (- r)"
  by (simp add: is_double_def representable_minus)

lemma js_neg_Fin [simp]: "js_neg (Fin a) = Fin (Abs_double (- val a))"
  by (simp add: to_double_exact)

declare js_neg.simps(4) [simp del]

lemma val_neg [simp]: "val (Abs_double (- val a)) = - val a"
  by (simp add: val_Abs)


lemma lit_0: "lit 0 = Fin (Abs_double 0)" "val (Abs_double 0) = 0"
  by (simp_all add: num_eval)

lemma js_add_zero [simp]: "js_add x (lit 0) = x"
  by (cases x) (simp_all add: lit_0)

lemma js_sub_zero [simp]: "js_sub x (lit 0) = x"
  by (cases x) (simp_all add: js_sub_def lit_0 val_Abs)


lemma round_half_cases:
  assumes "representable p d r"
  shows "of_int \<lfloor>r + 1 / 2\<rfloor> = r \<or> \<bar>\<lfloor>r + 1 / 2\<rfloor>\<bar> \<le> 2 ^ p"
proof -
  from assms obtain n e where r: "r = of_int n * 2 powi e" and n: "\<bar>n\<bar> < 2 ^ p" and e: "- int d \<le> e"
    unfolding representable_def by blast
  show ?thesis
  proof (cases "0 \<le> e")
    case True
    then have "r = of_int (n * 2 ^ nat e)" unfolding r by (simp add: power_int_def)
    moreover have "\<lfloor>of_int (n * 2 ^ nat e) + (1 / 2 :: real)\<rfloor> = n * 2 ^ nat e"
      by (simp only: floor_eq_iff) simp
    ultimately have "of_int \<lfloor>r + 1 / 2\<rfloor> = r" by simp
    then show ?thesis by simp
  next
    case False
    then have "e \<le> 0" by simp
    then have "(2::real) powi e \<le> 2 powi 0" by (simp only: two_powi_le_iff)
    then have e1: "(2::real) powi e \<le> 1" by simp
    from n have "\<bar>n\<bar> \<le> 2 ^ p - 1" by simp
    then have "(of_int \<bar>n\<bar> :: real) \<le> of_int (2 ^ p - 1)" by (simp only: of_int_le_iff)
    then have n1: "\<bar>of_int n :: real\<bar> \<le> 2 ^ p - 1" by simp
    have "\<bar>r\<bar> = \<bar>of_int n\<bar> * 2 powi e" unfolding r by (simp add: abs_mult)
    also have "\<dots> \<le> \<bar>of_int n\<bar> * 1"
      using e1 by (intro mult_left_mono) simp_all
    finally have b: "\<bar>r\<bar> \<le> 2 ^ p - 1" using n1 by simp
    then have "r + 1 / 2 \<le> of_int (2 ^ p)" by simp
    then have up: "\<lfloor>r + 1 / 2\<rfloor> \<le> 2 ^ p" by (metis floor_mono floor_of_int)
    from b have "of_int (- (2 ^ p)) \<le> r + 1 / 2" by simp
    then have lo: "- (2 ^ p) \<le> \<lfloor>r + 1 / 2\<rfloor>" by (metis floor_mono floor_of_int)
    from up lo have "\<bar>\<lfloor>r + 1 / 2\<rfloor>\<bar> \<le> 2 ^ p" by linarith
    then show ?thesis by simp
  qed
qed

text \<open>
  \<open>Math.round\<close> of a double is an integer that is a double again, and of a
  single-precision value a single-precision value: storing a rounded slot back into a
  \<open>Float32Array\<close> changes nothing.
\<close>

lemma is_double_round_half: "is_double r \<Longrightarrow> is_double (of_int \<lfloor>r + 1 / 2\<rfloor>)"
proof -
  assume d: "is_double r"
  then have "representable 53 1074 r" by (simp add: is_double_def)
  then have "of_int \<lfloor>r + 1 / 2\<rfloor> = r \<or> \<bar>\<lfloor>r + 1 / 2\<rfloor>\<bar> \<le> 2 ^ 53"
    by (rule round_half_cases)
  then show ?thesis
  proof
    assume "of_int \<lfloor>r + 1 / 2\<rfloor> = r"
    with d show ?thesis by simp
  next
    assume "\<bar>\<lfloor>r + 1 / 2\<rfloor>\<bar> \<le> 2 ^ 53"
    then show ?thesis by (rule is_double_of_int)
  qed
qed

lemma is_single_round_half: "is_single r \<Longrightarrow> is_single (of_int \<lfloor>r + 1 / 2\<rfloor>)"
proof -
  assume d: "is_single r"
  then have "representable 24 149 r" by (simp add: is_single_def)
  then have "of_int \<lfloor>r + 1 / 2\<rfloor> = r \<or> \<bar>\<lfloor>r + 1 / 2\<rfloor>\<bar> \<le> 2 ^ 24"
    by (rule round_half_cases)
  then show ?thesis
  proof
    assume "of_int \<lfloor>r + 1 / 2\<rfloor> = r"
    with d show ?thesis by simp
  next
    assume "\<bar>\<lfloor>r + 1 / 2\<rfloor>\<bar> \<le> 2 ^ 24"
    then show ?thesis by (rule is_single_of_int)
  qed
qed

lemma Math_round_exact:
  "Math_round (Fin a) = Fin (Abs_double (of_int \<lfloor>val a + 1 / 2\<rfloor>))"
  "val (Abs_double (of_int \<lfloor>val a + 1 / 2\<rfloor>)) = of_int \<lfloor>val a + 1 / 2\<rfloor>"
  by (simp_all add: to_double_exact val_Abs is_double_round_half)



lemma fround_fixed_single: "fround (Fin a) = Fin a \<Longrightarrow> is_single (val a)"
proof (cases a rule: fround_cases)
  case inf
  assume "fround (Fin a) = Fin a"
  with inf show ?thesis by (simp add: overflow_def split: if_splits)
next
  case (fin b)
  assume "fround (Fin a) = Fin a"
  with fin show ?thesis by simp
qed

lemma fround_Math_round: "fround x = x \<Longrightarrow> fround (Math_round x) = Math_round x"
proof (cases x)
  case (Fin a)
  assume "fround x = x"
  then have "is_single (val a)" unfolding Fin by (rule fround_fixed_single)
  then have "is_single (of_int \<lfloor>val a + 1 / 2\<rfloor>)" by (rule is_single_round_half)
  then show ?thesis unfolding Fin Math_round_exact(1) by (rule fround_exact)
qed simp_all

lemma fround_Math_round_of_f32 [simp]: "fround (Math_round (of_f32 s)) = Math_round (of_f32 s)"
  by (rule fround_Math_round) simp

text \<open>
  A sum is rounded to a double, and rounding does not cross a double: adding a
  non-negative number never gives less than the first operand.
\<close>

lemma round_even_ge_int: "of_int M \<le> t \<Longrightarrow> M \<le> round_even t"
proof -
  assume "of_int M \<le> t"
  then have "M \<le> \<lfloor>t\<rfloor>" by (simp only: le_floor_iff)
  with round_even_cases [of t] show ?thesis by linarith
qed

lemma representable_multiple:
  assumes "representable p d a" and "a \<noteq> 0" and "q \<le> max (binade a - (int p - 1)) (- int d)"
  shows "\<exists>M. a = of_int M * 2 powi q"
proof -
  define qa where "qa = max (binade a - (int p - 1)) (- int d)"
  define N where "N = round_even (a / 2 powi qa)"
  have "round_to p d a = a" using assms(1) by (rule round_to_id)
  then have a: "a = of_int N * 2 powi qa"
    using assms(2) by (simp add: round_to_def Let_def qa_def N_def)
  from assms(3) obtain k where k: "qa = q + int k"
    unfolding qa_def by (metis zle_iff_zadd)
  have "a = of_int (N * 2 ^ k) * 2 powi q"
    by (subst a) (simp add: k two_powi_add)
  then show ?thesis ..
qed

lemma binade_mono_abs:
  assumes "x \<noteq> 0" and "y \<noteq> 0" and "\<bar>x\<bar> \<le> \<bar>y\<bar>"
  shows "binade x \<le> binade y"
proof -
  have "2 powi binade x \<le> \<bar>x\<bar>" using binade_bounds [OF assms(1)] by simp
  also note assms(3)
  also have "\<bar>y\<bar> < 2 powi (binade y + 1)" using binade_bounds [OF assms(2)] by simp
  finally have "binade x < binade y + 1" by (simp only: two_powi_less_iff)
  then show ?thesis by simp
qed

lemma round_to_ge:
  assumes a: "representable p d a" and le: "a \<le> x"
  shows "a \<le> round_to p d x"
proof (cases "x = 0")
  case True
  with le show ?thesis by (simp add: round_to_def)
next
  case x0: False
  define q where "q = max (binade x - (int p - 1)) (- int d)"
  define N where "N = round_even (x / 2 powi q)"
  have r: "round_to p d x = of_int N * 2 powi q"
    using x0 by (simp add: round_to_def Let_def q_def N_def)
  have step: "of_int M * 2 powi q \<le> round_to p d x" if "of_int M * 2 powi q \<le> x" for M
  proof -
    from that have "of_int M \<le> x / 2 powi q" by (simp add: field_simps)
    then have "M \<le> N" unfolding N_def by (rule round_even_ge_int)
    then have "(of_int M :: real) \<le> of_int N" by simp
    then show ?thesis unfolding r by (intro mult_right_mono) simp_all
  qed
  consider (neg) "x < 0" | (mid) "a \<le> 0" "0 < x" | (pos) "0 < a"
    using x0 by linarith
  then show ?thesis
  proof cases
    case neg
    with le have a0: "a \<noteq> 0" and "\<bar>x\<bar> \<le> \<bar>a\<bar>" by simp_all
    then have "binade x \<le> binade a" using x0 by (intro binade_mono_abs) simp_all
    then have "q \<le> max (binade a - (int p - 1)) (- int d)" unfolding q_def by simp
    from representable_multiple [OF a a0 this] obtain M where "a = of_int M * 2 powi q" ..
    with le step [of M] show ?thesis by simp
  next
    case mid
    then have "0 \<le> round_to p d x" by (intro round_to_nonneg) simp
    with mid show ?thesis by simp
  next
    case pos
    then have a0: "a \<noteq> 0" and xpos: "0 < x" using le by simp_all
    from pos le have "\<bar>a\<bar> \<le> \<bar>x\<bar>" by simp
    then have Ele: "binade a \<le> binade x" using a0 x0 by (intro binade_mono_abs) simp_all
    show ?thesis
    proof (cases "binade a = binade x")
      case True
      then have "q \<le> max (binade a - (int p - 1)) (- int d)" unfolding q_def by simp
      from representable_multiple [OF a a0 this] obtain M where "a = of_int M * 2 powi q" ..
      with le step [of M] show ?thesis by simp
    next
      case False
      with Ele have lt: "binade a + 1 \<le> binade x" by simp
      from a obtain n e where ae: "a = of_int n * 2 powi e" and e: "- int d \<le> e"
        and nb: "\<bar>n\<bar> < 2 ^ p"
        unfolding representable_def by blast
      from pos ae have "0 < (of_int n :: real) * 2 powi e" by simp
      then have "0 < (of_int n :: real)" by (rule zero_less_mult_pos2) simp
      then have n1: "1 \<le> n" by simp
      with nb have "p \<noteq> 0" by (intro notI) simp
      then have p: "1 \<le> int p" by simp
      from n1 have "(1::real) \<le> of_int n" by simp
      then have "1 * 2 powi e \<le> of_int n * (2::real) powi e"
        by (intro mult_right_mono) simp_all
      then have "2 powi e \<le> a" unfolding ae by simp
      moreover from e have "(2::real) powi (- int d) \<le> 2 powi e" by (simp only: two_powi_le_iff)
      moreover have "a < 2 powi (binade a + 1)" using binade_bounds [OF a0] pos by simp
      moreover from lt have up: "(2::real) powi (binade a + 1) \<le> 2 powi binade x"
        by (simp only: two_powi_le_iff)
      ultimately have "(2::real) powi (- int d) < 2 powi binade x" by linarith
      then have "- int d < binade x" by (simp only: two_powi_less_iff)
      with p have "q \<le> binade x" unfolding q_def by simp
      then obtain k where k: "binade x = q + int k" by (metis zle_iff_zadd)
      have pw: "(2::real) powi binade x = of_int (2 ^ k) * 2 powi q"
        by (simp add: k two_powi_add)
      have "2 powi binade x \<le> x" using binade_bounds [OF x0] xpos by simp
      then have "of_int (2 ^ k) * 2 powi q \<le> round_to p d x"
        unfolding pw by (rule step)
      with pw \<open>a < 2 powi (binade a + 1)\<close> up show ?thesis by linarith
    qed
  qed
qed

lemma js_le_add_nonneg:
  assumes "0 \<le> val w"
  shows "js_le (Fin a) (js_add (Fin a) (Fin w))"
proof -
  have "representable 53 1074 (val a)"
    using is_double_val [of a] by (simp only: is_double_def)
  moreover from assms have "val a \<le> val a + val w" by simp
  ultimately have ge: "val a \<le> round_to 53 1074 (val a + val w)" by (rule round_to_ge)
  show ?thesis
  proof (cases "val a + val w" rule: to_double_cases)
    case inf
    from is_double_val [of a] have "\<bar>val a\<bar> < 2 ^ 1024"
      by (simp only: is_double_def)
    with ge inf(1) have "\<not> round_to 53 1074 (val a + val w) < 0"
      by linarith
    with inf(2) show ?thesis by (simp add: overflow_def)
  next
    case (fin b)
    with ge show ?thesis by simp
  qed
qed

section \<open>Evaluation of the examples\<close>

text \<open>
  The doubles and single-precision values that occur in the examples: the literal
  \<open>1.4\<close>, the title-bar height \<open>24 * 1.4\<close> of the default group (which is not \<open>33.6\<close>),
  the collapsed-width hint \<open>60.4\<close>, and the roundings at \<open>2\<^sup>2\<^sup>4\<close> and \<open>2\<^sup>5\<^sup>4\<close>, where
  the spacing of the single-precision values and of the doubles exceeds one.
\<close>

lemma lit_7_5: "lit (7 / 5) = Fin (Abs_double (3152519739159347 / 2251799813685248))"
  by (rule to_double_eval [where E = 0]) (simp_all add: round_even_def)

lemma is_double_7_5: "is_double (3152519739159347 / 2251799813685248)"
  by (rule to_double_eval(2) [where E = 0 and x = "7 / 5"]) (simp_all add: round_even_def)

lemmas js_eval = num_eval fround_exact js_sub_def

lemma fround_16777217: "fround (Fin (Abs_double 16777217)) = Fin (Abs_double 16777216)"
  by (rule fround_eval [where E = 24]) (simp_all add: round_even_def)

lemma th24: "js_mul (Fin (Abs_double 24)) (lit (7 / 5)) = Fin (Abs_double (1182194902184755 / 35184372088832))"
proof -
  have "to_double (24 * (3152519739159347 / 2251799813685248))
      = Fin (Abs_double (1182194902184755 / 35184372088832))"
    by (rule to_double_eval [where E = 5]) (simp_all add: round_even_def)
  then show ?thesis
    using is_double_7_5 by (simp add: lit_7_5 num_eval)
qed

lemma group0_simps:
  "of_f32 (b0 (bounding group0)) = lit 10" "of_f32 (b1 (bounding group0)) = lit 10"
  "of_f32 (b2 (bounding group0)) = lit 140" "of_f32 (b3 (bounding group0)) = lit 80"
  "font_size group0 = lit 24" "nodes group0 = []" "\<not> pinned group0"
  "titleHeight group0 = Fin (Abs_double (1182194902184755 / 35184372088832))"
  by (simp_all add: group0_def ctor_def pinned_def get_prop_def titleHeight_def th24 js_eval)

lemma is_double_dyadic:
  assumes "r = of_int k * 2 powi e" and "\<bar>k\<bar> < 2 ^ 53" and "- 1074 \<le> e" and "\<bar>r\<bar> < 2 ^ 1024"
  shows "is_double r"
proof -
  from assms(3) have "- int 1074 \<le> e" by simp
  with assms(1,2) have "representable 53 1074 r" by (rule representableI)
  with assms(4) show ?thesis by (simp only: is_double_def simp_thms)
qed

lemma is_single_dyadic:
  assumes "r = of_int k * 2 powi e" and "\<bar>k\<bar> < 2 ^ 24" and "- 149 \<le> e" and "\<bar>r\<bar> < 2 ^ 128"
  shows "is_single r"
proof -
  from assms(3) have "- int 149 \<le> e" by simp
  with assms(1,2) have "representable 24 149 r" by (rule representableI)
  with assms(4) show ?thesis by (simp only: is_single_def simp_thms)
qed

lemma is_double_consts [simp]:
  "is_double (1182194902184755 / 35184372088832)"
  "is_double (830351181296435 / 35184372088832)"
  "is_double (6108006994621235 / 35184372088832)"
  "is_double (1534038623073075 / 35184372088832)"
  "is_double (1569222995161907 / 35184372088832)"
  "is_double (8500544296661811 / 140737488355328)"
  "is_double (12373197 / 524288)"
  "is_double (5688525 / 32768)"
  "is_double 18014398509481984"
  "is_double 18014398509482016"
  by (rule is_double_dyadic [where k = 1182194902184755 and e = "- 45"], simp_all)
     (rule is_double_dyadic [where k = 830351181296435 and e = "- 45"], simp_all,
      rule is_double_dyadic [where k = 6108006994621235 and e = "- 45"], simp_all,
      rule is_double_dyadic [where k = 1534038623073075 and e = "- 45"], simp_all,
      rule is_double_dyadic [where k = 1569222995161907 and e = "- 45"], simp_all,
      rule is_double_dyadic [where k = 8500544296661811 and e = "- 47"], simp_all,
      rule is_double_dyadic [where k = 12373197 and e = "- 19"], simp_all,
      rule is_double_dyadic [where k = 5688525 and e = "- 15"], simp_all,
      rule is_double_dyadic [where k = 1 and e = 54], simp_all,
      rule is_double_dyadic [where k = 562949953421313 and e = 5], simp_all)

lemma is_single_consts [simp]:
  "is_single (12373197 / 524288)"
  "is_single (5688525 / 32768)"
  "is_single 18014398509481984"
  by (rule is_single_dyadic [where k = 12373197 and e = "- 19"], simp_all)
     (rule is_single_dyadic [where k = 5688525 and e = "- 15"], simp_all,
      rule is_single_dyadic [where k = 1 and e = 54], simp_all)

lemma lit_302_5: "lit (302 / 5) = Fin (Abs_double (8500544296661811 / 140737488355328))"
  by (rule to_double_eval [where E = 5]) (simp_all add: round_even_def)

lemma fround_fit_y:
  "fround (Fin (Abs_double (- (830351181296435 / 35184372088832)))) = Fin (Abs_double (- (12373197 / 524288)))"
  by (rule fround_eval [where E = 4]) (simp_all add: round_even_def)

lemma fround_fit_h:
  "fround (Fin (Abs_double (6108006994621235 / 35184372088832))) = Fin (Abs_double (5688525 / 32768))"
  by (rule fround_eval [where E = 7]) (simp_all add: round_even_def)

lemma big_minus_1: "to_double 18014398509481983 = Fin (Abs_double 18014398509481984)"
  by (rule to_double_eval [where E = 53]) (simp_all add: round_even_def)

lemma big_plus_th:
  "to_double (18014398509481984 + 1182194902184755 / 35184372088832) = Fin (Abs_double 18014398509482016)"
  by (rule to_double_eval [where E = 54]) (simp_all add: round_even_def)

lemma big_plus_th_nf:
  "to_double (633825300114115882943253787443 / 35184372088832) = Fin (Abs_double 18014398509482016)"
  using big_plus_th by simp

lemma heap1_simps:
  "heap1 (Suc 0) = node1" "heap1 1 = node1" "heap1 2 = node2" "heap1 3 = node3"
  by (simp_all add: heap1_def)

lemma union_example:
  "spec_union (lit 30) node1 [node2, node3] =
     \<lparr> bleft = lit 0, btop = lit 20, bright = lit 360, bbottom = lit 140 \<rparr>"
  by (simp add: spec_union_def running_min_def running_max_def spec_left_def spec_top_def
      spec_right_def spec_bottom_def collapsed_width_hint_def isCollapsed_def get_prop_def
      node1_def node2_def node3_def lit_302_5 js_eval)

lemma group1_simps:
  "titleHeight group1 = Fin (Abs_double (1182194902184755 / 35184372088832))"
  "nodes group1 = [1]" "bounding group1 = bounding group0"
  using group0_simps(8) by (simp_all add: group1_def titleHeight_def)

section \<open>The size setter\<close>

text \<open>
  C6 (amended). For an input of length at least two the size setter stores the
  single-precision rounding of \<open>(max(140, w), max(80, h))\<close>, the slots being those of a
  \<open>Float32Array\<close>; the stored size is the pair of maxima itself whenever both maxima are
  single-precision values. A missing input or one of length less than two leaves the
  group as it was.
\<close>

theorem size_setter_narrows:
  "(2 \<le> length v \<longrightarrow>
      get_size (set_size (Some v) g) = fround2 (Math_max (lit 140) (v ! 0), Math_max (lit 80) (v ! 1)))
   \<and> (fround (Math_max (lit 140) w) = Math_max (lit 140) w
        \<and> fround (Math_max (lit 80) h) = Math_max (lit 80) h \<longrightarrow>
      get_size (set_size (Some (w # h # rest)) g) = (Math_max (lit 140) w, Math_max (lit 80) h))
   \<and> (length v < 2 \<longrightarrow> set_size (Some v) g = g)
   \<and> set_size None g = g"
  by (simp add: set_size_def get_size_def fround2_def)

text \<open>
  Witness of C6: a width below the minimum is clamped and the result stored as it is;
  a one-element array is ignored.
\<close>

theorem size_setter_narrows_witness:
  "2 \<le> length [lit 100, lit 200]
   \<and> get_size (set_size (Some [lit 100, lit 200]) group0) = (lit 140, lit 200)
   \<and> length [lit 500] < 2
   \<and> set_size (Some [lit 500]) group0 = group0"
  using size_setter_narrows [of "[lit 100, lit 200]" group0 "lit 100" "lit 200" "[]"]
        size_setter_narrows [of "[lit 500]" group0 "lit 0" "lit 0" "[]"]
  by (simp add: fround2_def js_eval)

text \<open>
  Counterexample to C6 as worded (the stored size is exactly the pair of maxima):
  \<open>size = [16777217, 100]\<close> on the default group stores the width \<open>16777216\<close>, while
  \<open>max(140, 16777217)\<close> is \<open>16777217\<close>.
\<close>

theorem size_setter_exact_counterexample:
  "get_size (set_size (Some [lit 16777217, lit 100]) group0) = (lit 16777216, lit 100)
   \<and> (Math_max (lit 140) (lit 16777217), Math_max (lit 80) (lit 100)) = (lit 16777217, lit 100)
   \<and> lit 16777216 \<noteq> lit 16777217"
  by (simp add: set_size_def get_size_def js_eval fround_16777217)

section \<open>Resize\<close>

text \<open>
  C7 (amended). On an unpinned group \<open>resize(width, height)\<close> stores the
  single-precision rounding of \<open>(width, height)\<close> in the size slots, with no clamping
  to a minimum; the stored size is \<open>(width, height)\<close> itself whenever both are
  single-precision values. The position, every other field of the group and the heap
  of nodes are unchanged.
\<close>

theorem resize_stores_narrowed:
  "\<not> pinned (group w) \<Longrightarrow>
     get_size (group (resize width height w)) = fround2 (width, height)
     \<and> (fround width = width \<and> fround height = height \<longrightarrow>
          get_size (group (resize width height w)) = (width, height))
     \<and> get_pos (group (resize width height w)) = get_pos (group w)
     \<and> title (group (resize width height w)) = title (group w)
     \<and> color (group (resize width height w)) = color (group w)
     \<and> font (group (resize width height w)) = font (group w)
     \<and> font_size (group (resize width height w)) = font_size (group w)
     \<and> nodes (group (resize width height w)) = nodes (group w)
     \<and> graph (group (resize width height w)) = graph (group w)
     \<and> flags (group (resize width height w)) = flags (group w)
     \<and> selected (group (resize width height w)) = selected (group w)
     \<and> heap (resize width height w) = heap w"
  by (simp add: resize_def get_size_def get_pos_def fround2_def)

text \<open>
  Witness of C7: the default group resized to 1 by 2, below both minimums.
\<close>

theorem resize_stores_narrowed_witness:
  "\<not> pinned group0
   \<and> get_size (group (resize (lit 1) (lit 2) \<lparr>group = group0, heap = heap0\<rparr>)) = (lit 1, lit 2)
   \<and> get_pos (group (resize (lit 1) (lit 2) \<lparr>group = group0, heap = heap0\<rparr>)) = (lit 10, lit 10)"
proof -
  have h: "\<not> pinned (group \<lparr>group = group0, heap = heap0\<rparr>)"
    by (simp add: group0_simps)
  show ?thesis
    using h resize_stores_narrowed [OF h, of "lit 1" "lit 2"]
    by (simp add: group0_simps get_pos_def fround2_def js_eval)
qed

text \<open>
  Counterexample to C7 as worded (exactly the arguments are stored):
  \<open>resize(1, 16777217)\<close> on the default group stores the height \<open>16777216\<close>.
\<close>

theorem resize_exact_counterexample:
  "\<not> pinned group0
   \<and> get_size (group (resize (lit 1) (lit 16777217) \<lparr>group = group0, heap = heap0\<rparr>))
       = (lit 1, lit 16777216)
   \<and> lit 16777216 \<noteq> lit 16777217"
  by (simp add: resize_def get_size_def group0_simps js_eval fround_16777217)

section \<open>Calls on a pinned group\<close>

lemma move_pinned: "pinned (group w) \<Longrightarrow> move keep deltax deltay ignore_nodes w = w"
  by (simp add: move_def)

lemma resize_pinned: "pinned (group w) \<Longrightarrow> resize width height w = w"
  by (simp add: resize_def)

text \<open>
  C3. On a pinned group every sequence of \<open>move\<close> and \<open>resize\<close> calls, whatever their
  arguments, returns the state it started from: the group's position and size and
  every node are unchanged, and the group is still pinned, so the same holds for any
  further calls.
\<close>

theorem pinned_calls_noop:
  "pinned (group w) \<Longrightarrow> do_calls keep cs w = w \<and> pinned (group (do_calls keep cs w))"
proof (induction cs)
  case Nil
  then show ?case by simp
next
  case (Cons c cs)
  have "do_call keep c w = w"
    using Cons.prems by (cases c) (simp_all add: move_pinned resize_pinned)
  with Cons show ?case by simp
qed

text \<open>
  Witness of C3: three calls on a freshly pinned group.
\<close>

theorem pinned_calls_noop_witness:
  "pinned (pin group0)
   \<and> do_calls plain [Move (lit 5) (lit 7) None, Resize (lit 300) (lit 200), Move (lit 1) (lit 1) (Some True)]
        \<lparr>group = pin group0, heap = heap0\<rparr>
      = \<lparr>group = pin group0, heap = heap0\<rparr>"
proof -
  have h: "pinned (group \<lparr>group = pin group0, heap = heap0\<rparr>)"
    by (simp add: pinned_def pin_def get_prop_def)
  show ?thesis
    using h pinned_calls_noop [OF h, of plain "[Move (lit 5) (lit 7) None, Resize (lit 300) (lit 200), Move (lit 1) (lit 1) (Some True)]"]
    by simp
qed

section \<open>Move\<close>

text \<open>
  The loop over the member list adds the delta to a node once for every entry of the
  list that refers to it.
\<close>

lemma move_nodes_count:
  "move_nodes keep deltax deltay rs h r =
     (h r)\<lparr>node_pos := (shift_pos keep deltax deltay ^^ count_list rs r) (node_pos (h r))\<rparr>"
proof (induction rs arbitrary: h)
  case Nil
  show ?case by simp
next
  case (Cons a rs)
  show ?case
    by (simp add: Cons.IH shift_pos_def [symmetric] funpow_swap1)
qed

text \<open>
  C5 (amended). On an unpinned group \<open>move(dx, dy, false)\<close> stores in the position
  slots the single-precision rounding of the position plus \<open>(dx, dy)\<close>, the sum taken
  in double arithmetic. Every entry of the cached member list adds \<open>(dx, dy)\<close> once to
  the position of the node it refers to, so a node listed \<open>k\<close> times is shifted \<open>k\<close>
  times, a node listed once exactly once, and a node that is not listed (one that
  entered the group's area after the last recomputation, say) is unchanged. The member
  list and the size are unchanged, and omitting the third argument is passing
  \<open>false\<close>.
\<close>

theorem move_shifts_per_entry:
  "\<not> pinned (group w) \<Longrightarrow>
     get_pos (group (move keep deltax deltay (Some False) w)) =
       fround2 (js_add (fst (get_pos (group w))) deltax, js_add (snd (get_pos (group w))) deltay)
     \<and> (\<forall>r. heap (move keep deltax deltay (Some False) w) r =
            (heap w r)\<lparr>node_pos :=
              (shift_pos keep deltax deltay ^^ count_list (nodes (group w)) r) (node_pos (heap w r))\<rparr>)
     \<and> (\<forall>r. count_list (nodes (group w)) r = 1 \<longrightarrow>
            node_pos (heap (move keep deltax deltay (Some False) w) r) =
              (keep (js_add (fst (node_pos (heap w r))) deltax),
               keep (js_add (snd (node_pos (heap w r))) deltay)))
     \<and> (\<forall>r. r \<notin> set (nodes (group w)) \<longrightarrow> heap (move keep deltax deltay (Some False) w) r = heap w r)
     \<and> nodes (group (move keep deltax deltay (Some False) w)) = nodes (group w)
     \<and> get_size (group (move keep deltax deltay (Some False) w)) = get_size (group w)
     \<and> move keep deltax deltay None w = move keep deltax deltay (Some False) w"
  by (simp add: move_def Let_def get_pos_def get_size_def move_nodes_count fround2_def shift_pos_def)

text \<open>
  Witness of C5: the default group with one member, moved by \<open>(5, 7)\<close>; the member
  follows, the node at reference 2 stays.
\<close>

theorem move_shifts_per_entry_witness:
  "\<not> pinned group1
   \<and> get_pos (group (move plain (lit 5) (lit 7) (Some False) \<lparr>group = group1, heap = heap1\<rparr>)) = (lit 15, lit 17)
   \<and> node_pos (heap (move plain (lit 5) (lit 7) (Some False) \<lparr>group = group1, heap = heap1\<rparr>) 1)
       = (lit 105, lit 107)
   \<and> heap (move plain (lit 5) (lit 7) (Some False) \<lparr>group = group1, heap = heap1\<rparr>) 2 = node2"
proof -
  have h: "\<not> pinned (group \<lparr>group = group1, heap = heap1\<rparr>)"
    using group0_simps(7) by (simp add: group1_def pinned_def)
  show ?thesis
    using h move_shifts_per_entry [OF h, of plain "lit 5" "lit 7"]
    by (simp add: group1_def get_pos_def group0_simps heap1_simps node1_def fround2_def
        shift_pos_def plain_def js_eval)
qed

text \<open>
  Counterexample to C5 as worded (the delta is added to the group's position, and the
  same delta to the position of every member): a group at abscissa \<open>2\<^sup>2\<^sup>4\<close> moved by
  \<open>(1, 0)\<close> stays where it is, although \<open>16777216 + 1\<close> is \<open>16777217\<close>; and a node that the
  member list holds twice, moved by \<open>(5, 7)\<close> from \<open>(100, 100)\<close>, ends at \<open>(110, 114)\<close>.
\<close>

theorem move_exact_counterexample:
  "\<not> pinned group_far
   \<and> get_pos group_far = (lit 16777216, lit 10)
   \<and> js_add (lit 16777216) (lit 1) = lit 16777217
   \<and> get_pos (group (move plain (lit 1) (lit 0) (Some False) \<lparr>group = group_far, heap = heap0\<rparr>))
       = (lit 16777216, lit 10)
   \<and> lit 16777217 \<noteq> lit 16777216
   \<and> \<not> pinned group_twice \<and> nodes group_twice = [1, 1] \<and> node_pos (heap1 1) = (lit 100, lit 100)
   \<and> node_pos (heap (move plain (lit 5) (lit 7) (Some False) \<lparr>group = group_twice, heap = heap1\<rparr>) 1)
       = (lit 110, lit 114)"
  by (simp add: group_far_def group_twice_def set_pos_def move_def Let_def get_pos_def pinned_def
      group0_simps group0_simps(7) [unfolded pinned_def] js_eval fround_16777217
      heap1_simps node1_def plain_def)

section \<open>Serialisation round trip\<close>


section \<open>Membership recomputation: the loop is a filter\<close>

lemma inside_loop_filter:
  "inside_loop getBounding b h rs acc = acc @ filter (\<lambda>r. overlapBounding b (getBounding (h r))) rs"
  by (induction rs arbitrary: acc) simp_all


lemma js_lt_specials [simp]: "js_lt a NegInf = False" "js_lt PosInf b = False" "js_lt a NaN = False"
  by (cases a; simp; fail | cases b; simp; fail)+





text \<open>
  A recomputation over a graph that lists each node once leaves a member list that
  holds each node once.
\<close>

lemma recomputeInsideNodes_distinct:
  "graph (group w) = Some gr \<Longrightarrow> distinct (graph_nodes gr) \<Longrightarrow>
     recomputeInsideNodes getBounding w = Inr w' \<Longrightarrow> distinct (nodes (group w'))"
  by (auto simp add: recomputeInsideNodes_def Let_def inside_loop_filter)



section \<open>The fit computes the union box of the specification\<close>

lemma Math_min_PosInf: "Math_min PosInf a = a"
  by (cases a) simp_all

lemma Math_max_NegInf: "Math_max NegInf a = a"
  by (cases a) simp_all

lemma js_mul_commute: "js_mul a b = js_mul b a"
  by (cases a; cases b) (simp_all add: mult.commute)

lemma fit_step_edges:
  "fit_step H acc n =
     \<lparr> bleft = Math_min (bleft acc) (spec_left n),
       btop = Math_min (btop acc) (spec_top H n),
       bright = Math_max (bright acc) (spec_right n),
       bbottom = Math_max (bbottom acc) (spec_bottom H n) \<rparr>"
  by (simp add: fit_step_def Let_def spec_left_def spec_top_def spec_right_def spec_bottom_def
      collapsed_width_hint_def split: option.splits)

lemma foldl_fit_step:
  "foldl (fit_step H) acc ns =
     \<lparr> bleft = foldl Math_min (bleft acc) (map spec_left ns),
       btop = foldl Math_min (btop acc) (map (spec_top H) ns),
       bright = foldl Math_max (bright acc) (map spec_right ns),
       bbottom = foldl Math_max (bbottom acc) (map (spec_bottom H) ns) \<rparr>"
  by (induction ns arbitrary: acc) (simp_all add: fit_step_edges)

lemma fold_from_infinities:
  "foldl (fit_step H) \<lparr> bleft = PosInf, btop = PosInf, bright = NegInf, bbottom = NegInf \<rparr> (n # ms)
     = spec_union H n ms"
  unfolding foldl_Cons foldl_fit_step fit_step_edges
  by (simp add: spec_union_def running_min_def running_max_def Math_min_PosInf Math_max_NegInf)

text \<open>
  The position and the size that \<open>addNodes\<close> leaves, for a non-empty combined list:
  the specification's formulas over the union box, narrowed by the store into the
  slots.
\<close>

lemma addNodes_result:
  assumes "nodes (group w) @ ns = r # rs"
  shows "get_pos (group (addNodes H ns (Some p) w)) =
       fround2 (spec_fit_pos (spec_union H (heap w r) (map (heap w) rs)) p (titleHeight (group w)))"
    and "get_size (group (addNodes H ns (Some p) w)) =
       fround2 (spec_fit_size (spec_union H (heap w r) (map (heap w) rs)) p (titleHeight (group w)))"
proof -
  have th: "titleHeight (g\<lparr>bounding := b\<rparr>) = titleHeight g" for g b
    by (simp add: titleHeight_def)
  have fold: "foldl (fit_step H) \<lparr> bleft = PosInf, btop = PosInf, bright = NegInf, bbottom = NegInf \<rparr>
      (map (heap w) (nodes (group w) @ ns)) = spec_union H (heap w r) (map (heap w) rs)"
    unfolding assms by (simp only: list.map fold_from_infinities)
  show "get_pos (group (addNodes H ns (Some p) w)) =
       fround2 (spec_fit_pos (spec_union H (heap w r) (map (heap w) rs)) p (titleHeight (group w)))"
    using fold
    by (simp add: addNodes_def Let_def array_truthy_def th set_pos_def set_size_def get_pos_def
        spec_fit_pos_def fround2_def)
  show "get_size (group (addNodes H ns (Some p) w)) =
       fround2 (spec_fit_size (spec_union H (heap w r) (map (heap w) rs)) p (titleHeight (group w)))"
    using fold
    by (simp add: addNodes_def Let_def array_truthy_def th set_pos_def set_size_def get_size_def
        spec_fit_size_def fround2_def js_mul_commute [of p])
qed

text \<open>
  C1 (amended). For a non-empty combined list (the members followed by the nodes passed
  in) and every padding \<open>p\<close>, \<open>addNodes\<close> computes the edges of each node as the
  specification words them (left the raw \<open>x\<close>; top \<open>y\<close> minus the title-height constant,
  \<open>y\<close> itself for a reroute; bottom the top plus the constant for a collapsed node, else
  \<open>y + height\<close>; right \<open>x\<close> plus the rounded collapsed width for a collapsed node with a
  truthy collapsed-width hint, else \<open>x + width\<close>) and folds them by min and max into the
  union box, all in double arithmetic. The position it stores is the single-precision
  rounding of \<open>(left - p, top - p - titleHeight)\<close>, the size the single-precision rounding
  of \<open>(right - left + 2p, bottom - top + 2p + titleHeight)\<close> clamped to the minimum
  \<open>(140, 80)\<close>, where \<open>titleHeight\<close> is the double product of the font size and \<open>1.4\<close>.
  An omitted padding is 10.
\<close>

theorem addNodes_fits_union_narrowed:
  "nodes (group w) @ ns = r # rs \<Longrightarrow>
     get_pos (group (addNodes H ns (Some p) w)) =
       fround2 (spec_fit_pos (spec_union H (heap w r) (map (heap w) rs)) p (titleHeight (group w)))
     \<and> get_size (group (addNodes H ns (Some p) w)) =
       fround2 (spec_fit_size (spec_union H (heap w r) (map (heap w) rs)) p (titleHeight (group w)))
     \<and> addNodes H ns None w = addNodes H ns (Some (lit 10)) w"
  by (simp add: addNodes_result) (simp add: addNodes_def)

text \<open>
  Witness of C1: the default group with the plain node as its member, fitted around the
  collapsed node and the reroute too, title-height constant 30, padding 10. The union
  box is \<open>[0, 20] .. [360, 140]\<close>; the position stored is \<open>(-10, -23.600000381469727)\<close> and
  the size \<open>(380, 173.60000610351562)\<close>.
\<close>

theorem addNodes_fits_union_narrowed_witness:
  "nodes group1 @ [2, 3] = 1 # [2, 3]
   \<and> get_pos (group (addNodes (lit 30) [2, 3] (Some (lit 10)) \<lparr>group = group1, heap = heap1\<rparr>))
       = (lit (- 10), lit (- (12373197 / 524288)))
   \<and> get_size (group (addNodes (lit 30) [2, 3] (Some (lit 10)) \<lparr>group = group1, heap = heap1\<rparr>))
       = (lit 380, lit (5688525 / 32768))"
proof -
  have h: "nodes (group \<lparr>group = group1, heap = heap1\<rparr>) @ [2, 3] = 1 # [2, 3]"
    by (simp add: group1_simps)
  show ?thesis
    using h addNodes_fits_union_narrowed [OF h, of "lit 30" "lit 10"]
    apply (simp only: group1_simps heap1_simps union_example list.map world.simps)
    apply (simp add: spec_fit_pos_def spec_fit_size_def fround2_def js_eval fround_fit_y fround_fit_h)
    done
qed

text \<open>
  Counterexample to C1 as worded (the position is set to
  \<open>(left - p, top - p - titleHeight)\<close>): in the same example the formula gives the ordinate
  \<open>-23.599999999999994\<close>, and the group's ordinate afterwards is \<open>-23.600000381469727\<close>.
\<close>

theorem addNodes_exact_counterexample:
  "nodes group1 @ [2, 3] = 1 # [2, 3]
   \<and> spec_fit_pos (spec_union (lit 30) (heap1 1) (map heap1 [2, 3])) (lit 10) (titleHeight group1)
       = (lit (- 10), lit (- (830351181296435 / 35184372088832)))
   \<and> get_pos (group (addNodes (lit 30) [2, 3] (Some (lit 10)) \<lparr>group = group1, heap = heap1\<rparr>))
       = (lit (- 10), lit (- (12373197 / 524288)))
   \<and> lit (- (830351181296435 / 35184372088832)) \<noteq> lit (- (12373197 / 524288))"
proof -
  have h: "nodes (group \<lparr>group = group1, heap = heap1\<rparr>) @ [2, 3] = 1 # [2, 3]"
    by (simp add: group1_simps)
  show ?thesis
    using h addNodes_result(1) [OF h, of "lit 30" "lit 10"]
    apply (simp only: group1_simps heap1_simps union_example list.map world.simps)
    apply (simp add: spec_fit_pos_def fround2_def js_eval fround_fit_y)
    done
qed

section \<open>Frame of the fit\<close>

text \<open>
  C10. \<open>addNodes\<close> writes the position and size slots of the group only: the member
  list is as before (the nodes passed in are not appended to it), so are title, color,
  flags, font size and the remaining fields, and no node of the heap is changed.
\<close>

theorem addNodes_frame:
  "nodes (group (addNodes H ns p w)) = nodes (group w)
   \<and> title (group (addNodes H ns p w)) = title (group w)
   \<and> color (group (addNodes H ns p w)) = color (group w)
   \<and> flags (group (addNodes H ns p w)) = flags (group w)
   \<and> font_size (group (addNodes H ns p w)) = font_size (group w)
   \<and> font (group (addNodes H ns p w)) = font (group w)
   \<and> graph (group (addNodes H ns p w)) = graph (group w)
   \<and> selected (group (addNodes H ns p w)) = selected (group w)
   \<and> heap (addNodes H ns p w) = heap w"
  by (simp add: addNodes_def Let_def set_pos_def set_size_def array_truthy_def)

section \<open>The fit of no nodes\<close>

text \<open>
  C2. The guard of \<open>addNodes\<close> tests \<open>!this._nodes\<close>, and an empty array is truthy: on
  the default group (no members) \<open>addNodes([], 10)\<close> does not return early. The fold
  over no nodes yields the infinities it started from, so the position becomes
  \<open>(Infinity, Infinity)\<close>; the size is clamped back to \<open>(140, 80)\<close>.
\<close>

theorem addNodes_empty_moves_group:
  "nodes group0 = []
   \<and> get_pos group0 = (lit 10, lit 10)
   \<and> get_pos (group (addNodes (lit 30) [] (Some (lit 10)) \<lparr>group = group0, heap = heap0\<rparr>))
       = (PosInf, PosInf)
   \<and> get_size (group (addNodes (lit 30) [] (Some (lit 10)) \<lparr>group = group0, heap = heap0\<rparr>))
       = (lit 140, lit 80)"
  by (simp add: addNodes_def Let_def set_pos_def set_size_def array_truthy_def group0_simps
      get_pos_def get_size_def js_eval titleHeight_def th24)

section \<open>Hit test of the title bar: the rectangle and its corners\<close>

lemma js_lt_not_le: "js_lt a b \<Longrightarrow> \<not> js_le b a"
  by (cases a; cases b) simp_all

lemma js_le_refl_iff: "js_le a a \<longleftrightarrow> a \<noteq> NaN"
  by (cases a) simp_all

lemma to_double_nonneg_cases:
  assumes "0 \<le> t"
  obtains "to_double t = PosInf" | b where "to_double t = Fin b" "0 \<le> val b"
proof (cases t rule: to_double_cases)
  case inf
  moreover from assms have "0 \<le> round_to 53 1074 t" by (rule round_to_nonneg)
  ultimately have "to_double t = PosInf" by (simp add: overflow_def)
  then show ?thesis by (rule that(1))
next
  case (fin b)
  moreover from assms have "0 \<le> round_to 53 1074 t" by (rule round_to_nonneg)
  ultimately show ?thesis by (intro that(2) [of b]) simp_all
qed

lemma lit_7_5_pos: obtains c where "lit (7 / 5) = Fin c" "0 \<le> val c"
  by (rule to_double_nonneg_cases [of "7 / 5"]) (simp_all add: lit_7_5)

lemma titleHeight_nonneg:
  assumes "font_size g = Fin fs" and "0 \<le> val fs"
  obtains "titleHeight g = PosInf" | t where "titleHeight g = Fin t" "0 \<le> val t"
proof -
  obtain c where c: "lit (7 / 5) = Fin c" "0 \<le> val c" by (rule lit_7_5_pos)
  from assms(2) c(2) have "0 \<le> val fs * val c" by simp
  then show ?thesis
  proof (cases rule: to_double_nonneg_cases)
    case 1
    then show ?thesis using assms(1) c(1) by (intro that(1)) (simp add: titleHeight_def)
  next
    case (2 b)
    then show ?thesis using assms(1) c(1) by (intro that(2) [of b]) (simp_all add: titleHeight_def)
  qed
qed

text \<open>
  C9 (amended). \<open>isPointInTitlebar(x, y)\<close> is true if and only if
  \<open>left <= x <= left + width\<close> and \<open>top <= y <= top + titleHeight\<close>, for the rectangle
  \<open>[boundingX, boundingY, boundingWidth, titleHeight]\<close>, the sums taken in double
  arithmetic. When the four numbers are finite and the width and the font size are
  not negative, the four corners of the rectangle test true. Every point whose ordinate
  is strictly less than the top edge, or strictly greater than the bottom edge
  \<open>top + titleHeight\<close>, tests false.
\<close>

theorem titlebar_hit_test:
  "(isPointInTitlebar g x y \<longleftrightarrow>
      js_le (of_f32 (b0 (bounding g))) x
      \<and> js_le x (js_add (of_f32 (b0 (bounding g))) (of_f32 (b2 (bounding g))))
      \<and> js_le (of_f32 (b1 (bounding g))) y
      \<and> js_le y (js_add (of_f32 (b1 (bounding g))) (titleHeight g)))
   \<and> (of_f32 (b0 (bounding g)) = Fin bx \<and> of_f32 (b1 (bounding g)) = Fin by
        \<and> of_f32 (b2 (bounding g)) = Fin bw \<and> font_size g = Fin fs
        \<and> 0 \<le> val bw \<and> 0 \<le> val fs \<longrightarrow>
        isPointInTitlebar g (Fin bx) (Fin by)
      \<and> isPointInTitlebar g (js_add (Fin bx) (Fin bw)) (Fin by)
      \<and> isPointInTitlebar g (Fin bx) (js_add (Fin by) (titleHeight g))
      \<and> isPointInTitlebar g (js_add (Fin bx) (Fin bw)) (js_add (Fin by) (titleHeight g)))
   \<and> (js_lt y (of_f32 (b1 (bounding g))) \<longrightarrow> \<not> isPointInTitlebar g x y)
   \<and> (js_lt (js_add (of_f32 (b1 (bounding g))) (titleHeight g)) y \<longrightarrow> \<not> isPointInTitlebar g x y)"
proof -
  have iff: "isPointInTitlebar g x' y' \<longleftrightarrow>
      js_le (of_f32 (b0 (bounding g))) x'
      \<and> js_le x' (js_add (of_f32 (b0 (bounding g))) (of_f32 (b2 (bounding g))))
      \<and> js_le (of_f32 (b1 (bounding g))) y'
      \<and> js_le y' (js_add (of_f32 (b1 (bounding g))) (titleHeight g))" for x' y'
    by (simp add: isPointInTitlebar_def isInsideRectangle_def Let_def)
  have corners: "isPointInTitlebar g (Fin bx) (Fin by)
      \<and> isPointInTitlebar g (js_add (Fin bx) (Fin bw)) (Fin by)
      \<and> isPointInTitlebar g (Fin bx) (js_add (Fin by) (titleHeight g))
      \<and> isPointInTitlebar g (js_add (Fin bx) (Fin bw)) (js_add (Fin by) (titleHeight g))"
    if slots: "of_f32 (b0 (bounding g)) = Fin bx" "of_f32 (b1 (bounding g)) = Fin by"
        "of_f32 (b2 (bounding g)) = Fin bw"
      and fs: "font_size g = Fin fs" "0 \<le> val fs" and bw: "0 \<le> val bw"
  proof -
    from bw have w: "js_le (Fin bx) (js_add (Fin bx) (Fin bw))" by (rule js_le_add_nonneg)
    have w': "js_le (js_add (Fin bx) (Fin bw)) (js_add (Fin bx) (Fin bw))"
      by (simp add: js_le_refl_iff)
    from fs have h: "js_le (Fin by) (js_add (Fin by) (titleHeight g))
        \<and> js_le (js_add (Fin by) (titleHeight g)) (js_add (Fin by) (titleHeight g))"
    proof (cases rule: titleHeight_nonneg)
      case 1
      then show ?thesis by simp
    next
      case (2 t)
      with js_le_add_nonneg [of t "by"] show ?thesis by (simp add: js_le_refl_iff)
    qed
    show ?thesis
      using w w' h by (simp add: iff slots)
  qed
  show ?thesis
    using corners by (auto simp add: iff js_lt_not_le)
qed

text \<open>
  Witness of C9: the default group, whose title bar is \<open>[10, 10, 140, 24 * 1.4]\<close>. The
  four corners test true; the points one unit above the top edge and one unit below
  the bottom edge \<open>10 + 24 * 1.4\<close> test false.
\<close>

theorem titlebar_hit_test_witness:
  "of_f32 (b0 (bounding group0)) = lit 10 \<and> of_f32 (b1 (bounding group0)) = lit 10
   \<and> of_f32 (b2 (bounding group0)) = lit 140 \<and> font_size group0 = lit 24
   \<and> 0 \<le> val (Abs_double 140) \<and> 0 \<le> val (Abs_double 24)
   \<and> titleHeight group0 = lit (1182194902184755 / 35184372088832)
   \<and> isPointInTitlebar group0 (lit 10) (lit 10)
   \<and> isPointInTitlebar group0 (lit 150) (lit 10)
   \<and> isPointInTitlebar group0 (lit 10) (lit (1534038623073075 / 35184372088832))
   \<and> isPointInTitlebar group0 (lit 150) (lit (1534038623073075 / 35184372088832))
   \<and> \<not> isPointInTitlebar group0 (lit 10) (lit 9)
   \<and> js_add (lit (1534038623073075 / 35184372088832)) (lit 1) = lit (1569222995161907 / 35184372088832)
   \<and> \<not> isPointInTitlebar group0 (lit 10) (lit (1569222995161907 / 35184372088832))"
  using titlebar_hit_test [of group0 "lit 10" "lit 9" "Abs_double 10" "Abs_double 10" "Abs_double 140" "Abs_double 24"]
        titlebar_hit_test [of group0 "lit 10" "lit (1569222995161907 / 35184372088832)" "Abs_double 10" "Abs_double 10" "Abs_double 140" "Abs_double 24"]
  by (simp add: group0_simps js_eval)

text \<open>
  Counterexample to C9 as worded (all four corners test true; a point one unit above
  the top edge tests false): after \<open>resize(-5, 80)\<close> the rectangle of the default group
  is \<open>[10, 10, -5, 24 * 1.4]\<close> and its corner \<open>(10, 10)\<close> tests false; and for a group whose
  top edge is \<open>2\<^sup>5\<^sup>4\<close> the point one unit above it has the ordinate \<open>2\<^sup>5\<^sup>4 - 1\<close>, which
  in double arithmetic is \<open>2\<^sup>5\<^sup>4\<close> again, and tests true.
\<close>

theorem titlebar_corners_counterexample:
  "of_f32 (b0 (bounding (group (resize (lit (- 5)) (lit 80) \<lparr>group = group0, heap = heap0\<rparr>)))) = lit 10
   \<and> of_f32 (b1 (bounding (group (resize (lit (- 5)) (lit 80) \<lparr>group = group0, heap = heap0\<rparr>)))) = lit 10
   \<and> of_f32 (b2 (bounding (group (resize (lit (- 5)) (lit 80) \<lparr>group = group0, heap = heap0\<rparr>)))) = lit (- 5)
   \<and> \<not> isPointInTitlebar (group (resize (lit (- 5)) (lit 80) \<lparr>group = group0, heap = heap0\<rparr>))
         (lit 10) (lit 10)
   \<and> of_f32 (b1 (bounding group_high)) = lit 18014398509481984
   \<and> js_sub (lit 18014398509481984) (lit 1) = lit 18014398509481984
   \<and> isPointInTitlebar group_high (lit 10) (js_sub (lit 18014398509481984) (lit 1))"
  by (simp add: resize_def group0_simps group0_simps(7) [unfolded pinned_def] pinned_def
      isPointInTitlebar_def isInsideRectangle_def Let_def titleHeight_def th24
      group_high_def set_pos_def js_eval big_minus_1 big_plus_th_nf)

end
